theory Spec2Isabelle
  imports Main "HOL-Library.Word"
begin

section \<open>JavaScript values used by the server\<close>

text \<open>
  A JavaScript string is modelled as a \<^typ>\<open>string\<close>; a variable that holds either
  \<open>null\<close>/\<open>undefined\<close> or a string is a \<^typ>\<open>string option\<close>.  The test
  \<open>if (!x)\<close> on such a variable succeeds for \<open>null\<close>, \<open>undefined\<close> and for the
  empty string.
\<close>

definition falsy :: "string option \<Rightarrow> bool" where
  "falsy x = (case x of None \<Rightarrow> True | Some s \<Rightarrow> s = [])"

text \<open>\<open>cookie.split(';')[0]\<close>: the text before the first semicolon.\<close>

definition split_first :: "string \<Rightarrow> string" where
  "split_first cookie = takeWhile (\<lambda>c. c \<noteq> CHR '';'') cookie"

text \<open>\<open>Array.prototype.join(sep)\<close>.\<close>

fun join :: "string \<Rightarrow> string list \<Rightarrow> string" where
  "join sep [] = []"
| "join sep [x] = x"
| "join sep (x # y # ys) = x @ sep @ join sep (y # ys)"

text \<open>\<open>String.prototype.startsWith\<close> and \<open>String.prototype.includes\<close>.\<close>

fun startsWith :: "string \<Rightarrow> string \<Rightarrow> bool" where
  "startsWith s [] = True"
| "startsWith [] (p # ps) = False"
| "startsWith (c # cs) (p # ps) = (c = p \<and> startsWith cs ps)"

fun includes_str :: "string \<Rightarrow> string \<Rightarrow> bool" where
  "includes_str [] p = (p = [])"
| "includes_str (c # cs) p = (startsWith (c # cs) p \<or> includes_str cs p)"

text \<open>Decimal rendering of a number inside a template literal.\<close>

definition digit :: "nat \<Rightarrow> char" where
  "digit d = ''0123456789'' ! d"

function decimal :: "nat \<Rightarrow> string" where
  "decimal n = (if n < 10 then [digit n] else decimal (n div 10) @ [digit (n mod 10)])"
  by pat_completeness auto
termination
  by (relation "measure id") auto

section \<open>The upstream service and the server state\<close>

text \<open>
  \<open>await fetch(...)\<close> either rejects with an error (whose \<open>message\<close> is kept) or
  resolves with a response.
\<close>

datatype 'a fetched = Threw string | Replied 'a

text \<open>
  The response to \<open>POST /api/session\<close>: its status and the value of
  \<open>response.headers.raw()['set-cookie']\<close> (\<open>undefined\<close> when the header is absent).
\<close>

record auth_reply =
  a_status :: nat
  a_set_cookie :: "string list option"

text \<open>\<open>response.ok\<close>: the status is in the range 200 to 299.\<close>

definition ok :: "nat \<Rightarrow> bool" where
  "ok status = (200 \<le> status \<and> status \<le> 299)"

text \<open>
  Everything the server does that is visible from outside its own variables is recorded,
  in order, in a trace: the login request, each forwarded API request (method, URL and
  Cookie header) and each console line (written without the leading pictograph).
\<close>

datatype event =
    AuthRequest
  | ApiRequest string string "string option"
  | Log string

record server =
  sessionCookie :: "string option"
  events :: "event list"

definition emit :: "event \<Rightarrow> server \<Rightarrow> server" where
  "emit e st = st\<lparr>events := events st @ [e]\<rparr>"

section \<open>authenticateTraccar\<close>

text \<open>
  The upstream's answer to a login may depend on everything that happened before, so it
  is a function of the trace up to and including the login request.
\<close>

definition authenticateTraccar ::
  "(event list \<Rightarrow> auth_reply fetched) \<Rightarrow> server \<Rightarrow> bool \<times> server" where
  "authenticateTraccar login st =
    (let st1 = emit (Log ''Authenticating with Traccar...'') st;
         st2 = emit AuthRequest st1
     in case login (events st2) of
          Threw msg \<Rightarrow> (False, emit (Log (''Authentication error: '' @ msg)) st2)
        | Replied response \<Rightarrow>
            if \<not> ok (a_status response) then
              (False, emit (Log (''Authentication error: Authentication failed: ''
                                   @ decimal (a_status response))) st2)
            else
              (case a_set_cookie response of
                 Some cookies \<Rightarrow>
                   (True, emit (Log ''Authentication successful!'')
                            (st2\<lparr>sessionCookie := Some (join ''; '' (map split_first cookies))\<rparr>))
               | None \<Rightarrow>
                   (False, emit (Log ''Authentication error: No session cookie received'') st2)))"

section \<open>proxyToTraccar\<close>

text \<open>The part of an incoming request the relay reads: \<open>req.method\<close> and \<open>req.url\<close>.\<close>

record request =
  req_method :: string
  req_url :: string

text \<open>
  An upstream API response: its status, \<open>response.headers.get('content-type')\<close>
  (\<open>null\<close> when absent), the body as \<open>response.text()\<close> gives it, and the outcome of
  \<open>response.json()\<close>: \<open>Inl\<close> the error message when the body does not parse,
  \<open>Inr\<close> the parsed value (kept opaque).
\<close>

record api_reply =
  r_status :: nat
  r_content_type :: "string option"
  r_text :: string
  r_json :: "string + string"

text \<open>
  What the relay answers to the browser: \<open>res.status(n).json({ error: msg })\<close> or
  \<open>res.json(data)\<close> (status 200).
\<close>

datatype body = ErrorBody string | Data string

record response =
  res_status :: nat
  res_body :: body

text \<open>
  The upstream service: the configured base URL and its answers to the login and to the
  forwarded API requests, each a function of the trace up to and including the request.
\<close>

record upstream =
  TRACCAR_URL :: string
  upstream_auth :: "event list \<Rightarrow> auth_reply fetched"
  upstream_api :: "event list \<Rightarrow> api_reply fetched"

text \<open>\<open>req.url.includes('?') ? req.url.substring(req.url.indexOf('?')) : ''\<close>\<close>

definition query_part :: "string \<Rightarrow> string" where
  "query_part u = (if includes_str u ''?'' then dropWhile (\<lambda>c. c \<noteq> CHR ''?'') u else [])"

text \<open>\<open>!contentType || !contentType.includes('application/json')\<close>\<close>

definition non_json :: "string option \<Rightarrow> bool" where
  "non_json contentType =
     (falsy contentType \<or>
      (case contentType of None \<Rightarrow> True | Some s \<Rightarrow> \<not> includes_str s ''application/json''))"

text \<open>
  The guard at the top of \<open>proxyToTraccar\<close>: without a session cookie the relay logs in
  first and answers 503 when that fails (\<open>Inl\<close>); otherwise it goes on with the state it
  has then (\<open>Inr\<close>).
\<close>

definition ensure_session :: "upstream \<Rightarrow> server \<Rightarrow> (response \<times> server) + server" where
  "ensure_session up st =
     (if falsy (sessionCookie st) then
        (let (authenticated, st1) = authenticateTraccar (upstream_auth up) st
         in if \<not> authenticated then
              Inl (\<lparr>res_status = 503, res_body = ErrorBody ''Unable to connect to Traccar''\<rparr>, st1)
            else Inr st1)
      else Inr st)"

text \<open>
  The relay calls itself after a successful re-login, with nothing that bounds the number
  of rounds, so it is a partial function: \<open>None\<close> is a run that never answers.
\<close>

partial_function (option) proxyToTraccar ::
  "upstream \<Rightarrow> request \<Rightarrow> string \<Rightarrow> server \<Rightarrow> (response \<times> server) option" where
  "proxyToTraccar up req endpoint st =
     (case ensure_session up st of
        Inl answered \<Rightarrow> Some answered
      | Inr st1 \<Rightarrow>
          (let url = TRACCAR_URL up @ endpoint @ query_part (req_url req);
               st2 = emit (ApiRequest (req_method req) url (sessionCookie st1)) st1
           in case upstream_api up (events st2) of
                Threw msg \<Rightarrow>
                  Some (\<lparr>res_status = 500, res_body = ErrorBody msg\<rparr>,
                        emit (Log (''Proxy error: '' @ msg)) st2)
              | Replied response \<Rightarrow>
                  if r_status response = 401 then
                    (let (authenticated, st3) =
                           authenticateTraccar (upstream_auth up)
                             (emit (Log ''Session expired, re-authenticating...'') st2)
                     in if authenticated then proxyToTraccar up req endpoint st3
                        else Some (\<lparr>res_status = 503,
                                    res_body = ErrorBody ''Unable to reconnect to Traccar''\<rparr>, st3))
                  else if non_json (r_content_type response) then
                    Some (\<lparr>res_status = 502,
                           res_body = ErrorBody ''Traccar returned non-JSON response''\<rparr>,
                          emit (Log (''Unexpected response from Traccar: ''
                                       @ take 200 (r_text response))) st2)
                  else
                    (case r_json response of
                       Inl msg \<Rightarrow>
                         Some (\<lparr>res_status = 500, res_body = ErrorBody msg\<rparr>,
                               emit (Log (''Proxy error: '' @ msg)) st2)
                     | Inr data \<Rightarrow>
                         Some (\<lparr>res_status = 200, res_body = Data data\<rparr>, st2))))"

declare proxyToTraccar.simps [code]

section \<open>The route history endpoint\<close>

text \<open>
  \<open>parseInt(s)\<close> with no radix: leading white space is skipped, one sign is read, a
  \<open>0x\<close>/\<open>0X\<close> prefix selects radix 16, and the longest run of digits is the number;
  the result is \<open>NaN\<close> (here \<open>None\<close>) exactly when that run is empty.  The value is
  kept as an exact integer; the server only asks whether it is \<open>NaN\<close>.
\<close>

definition isStrWhiteSpaceChar :: "char \<Rightarrow> bool" where
  "isStrWhiteSpaceChar c = (of_char c \<in> {9, 10, 11, 12, 13, 32, 160 :: nat})"

definition digitValue :: "char \<Rightarrow> nat option" where
  "digitValue c =
     (let n = (of_char c :: nat) in
      if 48 \<le> n \<and> n \<le> 57 then Some (n - 48)
      else if 97 \<le> n \<and> n \<le> 122 then Some (n - 87)
      else if 65 \<le> n \<and> n \<le> 90 then Some (n - 55)
      else None)"

definition isRadixDigit :: "nat \<Rightarrow> char \<Rightarrow> bool" where
  "isRadixDigit R c = (case digitValue c of None \<Rightarrow> False | Some d \<Rightarrow> d < R)"

definition addDigit :: "nat \<Rightarrow> nat \<Rightarrow> char \<Rightarrow> nat" where
  "addDigit R acc c = (case digitValue c of None \<Rightarrow> acc | Some d \<Rightarrow> acc * R + d)"

definition parseInt :: "string \<Rightarrow> int option" where
  "parseInt inputString =
     (let S = dropWhile isStrWhiteSpaceChar inputString;
          sign = (if startsWith S ''-'' \<and> S \<noteq> [] then - 1 else 1 :: int);
          S1 = (if S \<noteq> [] \<and> (startsWith S ''+'' \<or> startsWith S ''-'') then tl S else S);
          hex = (startsWith S1 ''0x'' \<or> startsWith S1 ''0X'');
          R = (if hex then 16 else 10 :: nat);
          S2 = (if hex then drop 2 S1 else S1);
          Z = takeWhile (isRadixDigit R) S2
      in if Z = [] then None
         else Some (sign * int (foldl (addDigit R) 0 Z)))"

text \<open>
  \<open>req.query\<close> as the handler destructures it; a parameter that is absent from the URL
  is \<open>undefined\<close>.
\<close>

record route_query =
  q_deviceId :: "string option"
  q_from :: "string option"
  q_to :: "string option"

text \<open>The string a query parameter holds, once it is known to be present.\<close>

definition text_of :: "string option \<Rightarrow> string" where
  "text_of x = (case x of None \<Rightarrow> [] | Some s \<Rightarrow> s)"

definition bad_request :: "string \<Rightarrow> response" where
  "bad_request msg = \<lparr>res_status = 400, res_body = ErrorBody msg\<rparr>"

text \<open>
  The handler of \<open>GET /api/reports/route\<close>.  \<open>new Date(s).getTime()\<close> is the parameter
  \<open>Date_parse\<close>: the time value in milliseconds, or \<open>None\<close> for an invalid date
  (\<open>NaN\<close>); \<open>now\<close> is the time value of \<open>new Date()\<close>.  Time values are integers of
  magnitude at most 8.64e15, so their comparisons and the test of the difference against
  seven days are exact.
\<close>

definition reports_route ::
  "(string \<Rightarrow> int option) \<Rightarrow> int \<Rightarrow> upstream \<Rightarrow> request \<Rightarrow> route_query \<Rightarrow> server
     \<Rightarrow> (response \<times> server) option" where
  "reports_route Date_parse now up req q st =
     (if falsy (q_deviceId q) \<or> falsy (q_from q) \<or> falsy (q_to q) then
        Some (bad_request ''Missing required parameters: deviceId, from, to'', st)
      else if parseInt (text_of (q_deviceId q)) = None then
        Some (bad_request ''Invalid deviceId format'', st)
      else
        (case (Date_parse (text_of (q_from q)), Date_parse (text_of (q_to q))) of
           (Some fromDate, Some toDate) \<Rightarrow>
             if fromDate \<ge> toDate then
               Some (bad_request ''Start date must be before end date'', st)
             else
               let maxRange = 7 * 24 * 60 * 60 * 1000 in
               if toDate - fromDate > maxRange then
                 Some (bad_request ''Date range cannot exceed 7 days'', st)
               else if toDate > now then
                 Some (bad_request ''End date cannot be in the future'', st)
               else proxyToTraccar up req ''/api/reports/route'' st
         | _ \<Rightarrow> Some (bad_request ''Invalid date format. Use ISO 8601 format.'', st)))"

section \<open>WebSocket objects of the server\<close>

text \<open>
  A socket of the \<open>ws\<close> library as the server sees it: its \<open>readyState\<close> and the
  methods the server has called on it, in order.  \<open>close()\<close> and \<open>terminate()\<close>
  start the shutdown of a socket that is not yet closed; \<open>send(str)\<close> puts a text
  frame on the wire whose payload is the UTF-8 encoding of the string.
\<close>

type_synonym u8 = "8 word"

datatype readyState = CONNECTING | OPEN | CLOSING | CLOSED

datatype call = Send "u8 list" | Ping | Close | CloseWith nat string | Terminate

record socket =
  readyState :: readyState
  calls :: "call list"

text \<open>A browser connection carries the extra property \<open>isAlive\<close>.\<close>

record client = socket +
  isAlive :: bool

definition invoke :: "call \<Rightarrow> 'a socket_scheme \<Rightarrow> 'a socket_scheme" where
  "invoke c ws = ws\<lparr>calls := calls ws @ [c]\<rparr>"

definition shut :: "'a socket_scheme \<Rightarrow> 'a socket_scheme" where
  "shut ws = (if readyState ws = CLOSED then ws else ws\<lparr>readyState := CLOSING\<rparr>)"

definition ws_close :: "'a socket_scheme \<Rightarrow> 'a socket_scheme" where
  "ws_close ws = shut (invoke Close ws)"

definition ws_close_with :: "nat \<Rightarrow> string \<Rightarrow> 'a socket_scheme \<Rightarrow> 'a socket_scheme" where
  "ws_close_with code reason ws = shut (invoke (CloseWith code reason) ws)"

definition ws_terminate :: "'a socket_scheme \<Rightarrow> 'a socket_scheme" where
  "ws_terminate ws = shut (invoke Terminate ws)"

definition ws_ping :: "'a socket_scheme \<Rightarrow> 'a socket_scheme" where
  "ws_ping ws = invoke Ping ws"

section \<open>The heartbeat\<close>

text \<open>
  The callback the interval timer runs on each member of \<open>wss.clients\<close>; it returns
  the socket and the console lines it wrote.
\<close>

definition heartbeat_client :: "client \<Rightarrow> client \<times> string list" where
  "heartbeat_client ws =
     (if isAlive ws = False then (ws_terminate ws, [''Terminating dead WebSocket connection''])
      else (ws_ping (ws\<lparr>isAlive := False\<rparr>), []))"

definition heartbeatInterval :: "client list \<Rightarrow> client list \<times> string list" where
  "heartbeatInterval clients =
     (map (fst \<circ> heartbeat_client) clients, concat (map (snd \<circ> heartbeat_client) clients))"

text \<open>The socket a new connection starts with, and its \<open>pong\<close> listener.\<close>

definition accepted :: client where
  "accepted = \<lparr>readyState = OPEN, calls = [], isAlive = True\<rparr>"

definition on_pong :: "client \<Rightarrow> client" where
  "on_pong clientWs = clientWs\<lparr>isAlive := True\<rparr>"

text \<open>
  What happens to one connection over time: a sweep of the interval timer or a pong from
  the browser.  A terminated socket leaves \<open>wss.clients\<close> and its browser is gone, so
  nothing reaches it any more.
\<close>

datatype beat = Sweep | Pong

definition terminated :: "client \<Rightarrow> bool" where
  "terminated ws = (Terminate \<in> set (calls ws))"

definition beat_step :: "client \<Rightarrow> beat \<Rightarrow> client" where
  "beat_step ws b =
     (if terminated ws then ws
      else case b of Sweep \<Rightarrow> fst (heartbeat_client ws) | Pong \<Rightarrow> on_pong ws)"

definition beats :: "beat list \<Rightarrow> client \<Rightarrow> client" where
  "beats bs ws = foldl beat_step ws bs"

text \<open>Two sweeps in a row with no pong between them.\<close>

fun two_sweeps :: "beat list \<Rightarrow> bool" where
  "two_sweeps (b # c # bs) = ((b = Sweep \<and> c = Sweep) \<or> two_sweeps (c # bs))"
| "two_sweeps bs = False"

section \<open>UTF-8\<close>

text \<open>
  A JavaScript string is taken here as its sequence of code points.  \<open>Buffer.toString()\<close>
  decodes UTF-8 the way the WHATWG decoder does: it keeps the number of continuation bytes
  still needed, the code point so far and the bounds of the next byte; a byte that cannot
  continue the sequence gives U+FFFD and is read again as the start of a new sequence.
\<close>

function utf8_decoder :: "nat \<Rightarrow> nat \<Rightarrow> nat \<Rightarrow> nat \<Rightarrow> u8 list \<Rightarrow> nat list" where
  "utf8_decoder needed cp lower upper [] = (if needed = 0 then [] else [0xFFFD])"
| "utf8_decoder needed cp lower upper (b # bs) =
     (let byte = unat b in
      if needed = 0 then
        (if byte \<le> 0x7F then byte # utf8_decoder 0 0 0x80 0xBF bs
         else if 0xC2 \<le> byte \<and> byte \<le> 0xDF then utf8_decoder 1 (byte mod 32) 0x80 0xBF bs
         else if 0xE0 \<le> byte \<and> byte \<le> 0xEF then
           utf8_decoder 2 (byte mod 16)
             (if byte = 0xE0 then 0xA0 else 0x80) (if byte = 0xED then 0x9F else 0xBF) bs
         else if 0xF0 \<le> byte \<and> byte \<le> 0xF4 then
           utf8_decoder 3 (byte mod 8)
             (if byte = 0xF0 then 0x90 else 0x80) (if byte = 0xF4 then 0x8F else 0xBF) bs
         else 0xFFFD # utf8_decoder 0 0 0x80 0xBF bs)
      else if \<not> (lower \<le> byte \<and> byte \<le> upper) then
        0xFFFD # utf8_decoder 0 0 0x80 0xBF (b # bs)
      else if needed = 1 then (cp * 64 + byte mod 64) # utf8_decoder 0 0 0x80 0xBF bs
      else utf8_decoder (needed - 1) (cp * 64 + byte mod 64) 0x80 0xBF bs)"
  by pat_completeness auto
termination
  by (relation "measure (\<lambda>(needed, cp, lower, upper, bs).
        2 * length bs + (if needed = 0 then 0 else 1))") auto

definition toString :: "u8 list \<Rightarrow> nat list" where
  "toString data = utf8_decoder 0 0 0x80 0xBF data"

text \<open>
  The encoder \<open>send\<close> applies to a string; a lone surrogate is sent as U+FFFD.
\<close>

definition utf8_encode_cp :: "nat \<Rightarrow> u8 list" where
  "utf8_encode_cp cp =
     (if cp < 0x80 then [of_nat cp]
      else if cp < 0x800 then [of_nat (0xC0 + cp div 64), of_nat (0x80 + cp mod 64)]
      else if 0xD800 \<le> cp \<and> cp \<le> 0xDFFF then [0xEF, 0xBF, 0xBD]
      else if cp < 0x10000 then
        [of_nat (0xE0 + cp div 4096), of_nat (0x80 + cp div 64 mod 64), of_nat (0x80 + cp mod 64)]
      else
        [of_nat (0xF0 + cp div 262144), of_nat (0x80 + cp div 4096 mod 64),
         of_nat (0x80 + cp div 64 mod 64), of_nat (0x80 + cp mod 64)])"

definition utf8_encode :: "nat list \<Rightarrow> u8 list" where
  "utf8_encode str = concat (map utf8_encode_cp str)"

text \<open>A Unicode scalar value: a code point that is not a surrogate.\<close>

definition scalar_value :: "nat \<Rightarrow> bool" where
  "scalar_value cp = (cp < 0xD800 \<or> (0xE000 \<le> cp \<and> cp \<le> 0x10FFFF))"

definition ws_send :: "nat list \<Rightarrow> 'a socket_scheme \<Rightarrow> 'a socket_scheme" where
  "ws_send str ws = invoke (Send (utf8_encode str)) ws"

section \<open>The bridge between a browser socket and its upstream socket\<close>

record bridge =
  clientWs :: client
  traccarWs :: socket
  console :: "string list"

definition console_log :: "string \<Rightarrow> bridge \<Rightarrow> bridge" where
  "console_log line b = b\<lparr>console := console b @ [line]\<rparr>"

datatype emitter = ClientWs | TraccarWs

datatype ws_event = EvOpen | EvMessage "u8 list" | EvError string | EvClose | EvPong

text \<open>
  The listeners of a bridge, by emitter and event: those the \<open>connection\<close> handler has
  registered with \<open>.on(...)\<close> once it has created the upstream socket; \<open>None\<close> where
  it registers none.
\<close>

fun listener :: "emitter \<Rightarrow> ws_event \<Rightarrow> (bridge \<Rightarrow> bridge) option" where
  "listener ClientWs EvPong = Some (\<lambda>b. b\<lparr>clientWs := on_pong (clientWs b)\<rparr>)"
| "listener TraccarWs EvOpen = Some (console_log ''Connected to Traccar WebSocket'')"
| "listener TraccarWs (EvMessage data) =
     Some (\<lambda>b. if readyState (clientWs b) = OPEN
                then b\<lparr>clientWs := ws_send (toString data) (clientWs b)\<rparr>
                else b)"
| "listener TraccarWs (EvError message) =
     Some (console_log (''Traccar WebSocket error: '' @ message))"
| "listener TraccarWs EvClose =
     Some (\<lambda>b. (console_log ''Traccar WebSocket closed'' b)\<lparr>clientWs := ws_close (clientWs b)\<rparr>)"
| "listener ClientWs EvClose =
     Some (\<lambda>b. (console_log ''Client WebSocket disconnected'' b)\<lparr>traccarWs := ws_close (traccarWs b)\<rparr>)"
| "listener ClientWs (EvError message) =
     Some (\<lambda>b. (console_log (''Client WebSocket error: '' @ message) b)
                  \<lparr>traccarWs := ws_close (traccarWs b)\<rparr>)"
| "listener _ _ = None"

text \<open>
  What the library has done to the emitting socket by the time the listeners run: it is
  \<open>OPEN\<close> when \<open>open\<close> is emitted, shutting down when \<open>error\<close> is emitted, and
  \<open>CLOSED\<close> when \<open>close\<close> is emitted.
\<close>

definition arrived :: "ws_event \<Rightarrow> readyState \<Rightarrow> readyState" where
  "arrived ev state =
     (case ev of
        EvOpen \<Rightarrow> OPEN
      | EvError message \<Rightarrow> (if state = CLOSED then CLOSED else CLOSING)
      | EvClose \<Rightarrow> CLOSED
      | _ \<Rightarrow> state)"

definition arrive :: "emitter \<Rightarrow> ws_event \<Rightarrow> bridge \<Rightarrow> bridge" where
  "arrive e ev b =
     (case e of
        ClientWs \<Rightarrow>
          b\<lparr>clientWs := (clientWs b)\<lparr>readyState := arrived ev (readyState (clientWs b))\<rparr>\<rparr>
      | TraccarWs \<Rightarrow>
          b\<lparr>traccarWs := (traccarWs b)\<lparr>readyState := arrived ev (readyState (traccarWs b))\<rparr>\<rparr>)"

text \<open>
  An \<open>error\<close> event with no listener is thrown as an uncaught exception, which ends
  the process (\<open>None\<close>); any other event with no listener is dropped.
\<close>

definition deliver :: "emitter \<Rightarrow> ws_event \<Rightarrow> bridge \<Rightarrow> bridge option" where
  "deliver e ev b =
     (case listener e ev of
        Some handler \<Rightarrow> Some (handler (arrive e ev b))
      | None \<Rightarrow> (case ev of EvError message \<Rightarrow> None | _ \<Rightarrow> Some (arrive e ev b)))"

text \<open>A socket on which \<open>close()\<close> has been called.\<close>

definition close_called :: "'a socket_scheme \<Rightarrow> bool" where
  "close_called ws = (Close \<in> set (calls ws))"

text \<open>A history of events on the two sockets of a bridge, delivered in order.\<close>

fun bridge_run :: "(emitter \<times> ws_event) list \<Rightarrow> bridge \<Rightarrow> bridge option" where
  "bridge_run [] b = Some b"
| "bridge_run ((e, ev) # history) b =
     (case deliver e ev b of None \<Rightarrow> None | Some b' \<Rightarrow> bridge_run history b')"

text \<open>
  The library emits \<open>close\<close> on a socket after every \<open>error\<close> it has emitted on
  it: the histories it can produce.
\<close>

fun close_follows_error :: "(emitter \<times> ws_event) list \<Rightarrow> bool" where
  "close_follows_error [] = True"
| "close_follows_error ((e, ev) # history) =
     ((case ev of EvError message \<Rightarrow> (e, EvClose) \<in> set history | _ \<Rightarrow> True)
      \<and> close_follows_error history)"

section \<open>The connection handler\<close>

text \<open>
  The handler of \<open>wss.on('connection')\<close> runs in two parts.  The first sets
  \<open>isAlive\<close>, registers the \<open>pong\<close> listener and, when there is no session cookie,
  starts a login and waits for it.  The second part runs at once when there is a cookie,
  and otherwise when the login has settled: with still no cookie it closes the browser
  socket with code 1008; with a cookie it creates the upstream socket and registers the
  listeners of the bridge.  So while the handler waits, the browser socket has its
  \<open>pong\<close> listener and no other.  The console of a bridge starts with the line the
  first part wrote.
\<close>

datatype connection = Accepting client | Bridged bridge | Refused client

definition resume :: "server \<Rightarrow> client \<Rightarrow> connection" where
  "resume st ws =
     (if falsy (sessionCookie st) then
        Refused (ws_close_with 1008 ''Unable to authenticate with Traccar'' ws)
      else
        Bridged \<lparr>clientWs = ws, traccarWs = \<lparr>readyState = CONNECTING, calls = []\<rparr>,
                 console = [''New WebSocket client connected'']\<rparr>)"

definition wss_connection :: "server \<Rightarrow> connection" where
  "wss_connection st =
     (if falsy (sessionCookie st) then Accepting accepted else resume st accepted)"

text \<open>An event on the browser socket while the handler waits for the login.\<close>

definition accepting_deliver :: "ws_event \<Rightarrow> client \<Rightarrow> client option" where
  "accepting_deliver ev ws =
     (let ws' = ws\<lparr>readyState := arrived ev (readyState ws)\<rparr>
      in case ev of
           EvPong \<Rightarrow> Some (on_pong ws')
         | EvError message \<Rightarrow> None
         | _ \<Rightarrow> Some ws')"

text \<open>
  What can happen to a connection: one of its sockets emits an event, or the login the
  handler waits for settles, leaving the server in the given state.
\<close>

datatype occurrence = Emits emitter ws_event | LoginSettles server

fun connection_step :: "connection \<Rightarrow> occurrence \<Rightarrow> connection option" where
  "connection_step (Accepting ws) (Emits ClientWs ev) =
     map_option Accepting (accepting_deliver ev ws)"
| "connection_step (Accepting ws) (Emits TraccarWs ev) = Some (Accepting ws)"
| "connection_step (Accepting ws) (LoginSettles st) = Some (resume st ws)"
| "connection_step (Bridged b) (Emits e ev) = map_option Bridged (deliver e ev b)"
| "connection_step (Bridged b) (LoginSettles st) = Some (Bridged b)"
| "connection_step (Refused ws) occ = Some (Refused ws)"

fun connection_run :: "occurrence list \<Rightarrow> connection \<Rightarrow> connection option" where
  "connection_run [] c = Some c"
| "connection_run (occ # occs) c =
     (case connection_step c occ of None \<Rightarrow> None | Some c' \<Rightarrow> connection_run occs c')"

section \<open>The browser's WebSocketManager\<close>

text \<open>
  The fields of \<open>WebSocketManager\<close> that reconnection reads and writes, and the delays
  it has passed to \<open>setTimeout\<close>, in order.
\<close>

record manager =
  isConnected :: bool
  reconnectAttempts :: nat
  timeouts :: "nat list"

definition maxReconnectAttempts :: nat where
  "maxReconnectAttempts = 10"

definition RECONNECT_INTERVAL :: nat where
  "RECONNECT_INTERVAL = 5000"

definition scheduleReconnect :: "manager \<Rightarrow> manager" where
  "scheduleReconnect m =
     (if reconnectAttempts m \<ge> maxReconnectAttempts then m
      else
        let m1 = m\<lparr>reconnectAttempts := reconnectAttempts m + 1\<rparr>;
            delay = min (RECONNECT_INTERVAL * reconnectAttempts m1) 30000
        in m1\<lparr>timeouts := timeouts m1 @ [delay]\<rparr>)"

definition onopen :: "manager \<Rightarrow> manager" where
  "onopen m = m\<lparr>isConnected := True, reconnectAttempts := 0\<rparr>"

definition onclose :: "manager \<Rightarrow> manager" where
  "onclose m = scheduleReconnect (m\<lparr>isConnected := False\<rparr>)"

text \<open>The delay the formula gives for attempt \<open>n\<close>.\<close>

definition reconnect_delay :: "nat \<Rightarrow> nat" where
  "reconnect_delay n = min (RECONNECT_INTERVAL * n) 30000"

section \<open>The validation rules as the specification lists them\<close>

text \<open>
  An integer as the specification means it for the device id: decimal digits, at least
  one, after at most one sign.
\<close>

definition is_decimal_digit :: "char \<Rightarrow> bool" where
  "is_decimal_digit c = (48 \<le> (of_char c :: nat) \<and> (of_char c :: nat) \<le> 57)"

definition is_integer_string :: "string \<Rightarrow> bool" where
  "is_integer_string s =
     (let digits = (if startsWith s ''-'' \<or> startsWith s ''+'' then tl s else s)
      in digits \<noteq> [] \<and> list_all is_decimal_digit digits)"

text \<open>
  A string that, after leading white space and one sign, is empty or starts with something
  other than a decimal digit.
\<close>

definition no_leading_digit :: "string \<Rightarrow> bool" where
  "no_leading_digit s =
     (let S = dropWhile isStrWhiteSpaceChar s;
          S1 = (if S \<noteq> [] \<and> (startsWith S ''+'' \<or> startsWith S ''-'') then tl S else S)
      in case S1 of [] \<Rightarrow> True | c # cs \<Rightarrow> \<not> is_decimal_digit c)"

text \<open>
  The six checks of the history endpoint in the order the specification gives them, each
  with the message of its 400 response: all three parameters present; the device id is an
  integer; both dates parse; start strictly before end; a range of at most seven days; end
  not after the current time.  A check that needs the dates counts as failed when they do
  not parse.
\<close>

definition spec_route_checks ::
  "(string \<Rightarrow> int option) \<Rightarrow> int \<Rightarrow> route_query \<Rightarrow> (bool \<times> string) list" where
  "spec_route_checks Date_parse now q =
     (let fromDate = Date_parse (text_of (q_from q));
          toDate = Date_parse (text_of (q_to q))
      in [(\<not> falsy (q_deviceId q) \<and> \<not> falsy (q_from q) \<and> \<not> falsy (q_to q),
           ''Missing required parameters: deviceId, from, to''),
          (is_integer_string (text_of (q_deviceId q)),
           ''Invalid deviceId format''),
          (fromDate \<noteq> None \<and> toDate \<noteq> None,
           ''Invalid date format. Use ISO 8601 format.''),
          (case (fromDate, toDate) of (Some f, Some t) \<Rightarrow> f < t | _ \<Rightarrow> False,
           ''Start date must be before end date''),
          (case (fromDate, toDate) of (Some f, Some t) \<Rightarrow> t - f \<le> 7 * 24 * 60 * 60 * 1000
             | _ \<Rightarrow> False,
           ''Date range cannot exceed 7 days''),
          (case toDate of Some t \<Rightarrow> t \<le> now | None \<Rightarrow> False,
           ''End date cannot be in the future'')])"

text \<open>The message of the first check that fails, if any.\<close>

fun first_failure :: "(bool \<times> string) list \<Rightarrow> string option" where
  "first_failure [] = None"
| "first_failure ((passed, msg) # checks) = (if passed then first_failure checks else Some msg)"

section \<open>Reading the trace\<close>

text \<open>A request sent to the upstream (a login or a forwarded call), as opposed to a console line.\<close>

definition is_request :: "event \<Rightarrow> bool" where
  "is_request e = (case e of Log line \<Rightarrow> False | _ \<Rightarrow> True)"

definition is_api_request :: "event \<Rightarrow> bool" where
  "is_api_request e = (case e of ApiRequest m u c \<Rightarrow> True | _ \<Rightarrow> False)"

definition auth_requests :: "event list \<Rightarrow> nat" where
  "auth_requests h = length (filter (\<lambda>e. e = AuthRequest) h)"

definition api_requests :: "event list \<Rightarrow> nat" where
  "api_requests h = length (filter is_api_request h)"

text \<open>The console line \<open>authenticateTraccar\<close> writes when it fails.\<close>

definition auth_error_line :: "event \<Rightarrow> bool" where
  "auth_error_line e =
     (case e of Log line \<Rightarrow> startsWith line ''Authentication error: '' | _ \<Rightarrow> False)"

text \<open>The URL the relay builds for a request.\<close>

definition forwarded_url :: "upstream \<Rightarrow> request \<Rightarrow> string \<Rightarrow> string" where
  "forwarded_url up req endpoint = TRACCAR_URL up @ endpoint @ query_part (req_url req)"

section \<open>Example upstreams\<close>

text \<open>
  A login that always succeeds and one that is always refused; an API that answers 401
  until \<open>n\<close> logins have been made and with a JSON array from then on; an API that
  answers with an HTML page.
\<close>

definition login_accepted :: "event list \<Rightarrow> auth_reply fetched" where
  "login_accepted h =
     Replied \<lparr>a_status = 200, a_set_cookie = Some [''JSESSIONID=node0fresh; Path=/'']\<rparr>"

definition login_refused :: "event list \<Rightarrow> auth_reply fetched" where
  "login_refused h = Replied \<lparr>a_status = 401, a_set_cookie = None\<rparr>"

definition expired_until :: "nat \<Rightarrow> event list \<Rightarrow> api_reply fetched" where
  "expired_until n h =
     (if auth_requests h < n then
        Replied \<lparr>r_status = 401, r_content_type = None, r_text = [], r_json = Inl ''Unexpected end of JSON input''\<rparr>
      else
        Replied \<lparr>r_status = 200, r_content_type = Some ''application/json'',
                 r_text = ''[]'', r_json = Inr ''[]''\<rparr>)"

definition html_page :: "event list \<Rightarrow> api_reply fetched" where
  "html_page h =
     Replied \<lparr>r_status = 200, r_content_type = Some ''text/html'',
              r_text = ''<html>maintenance</html>'', r_json = Inl ''Unexpected token <''\<rparr>"

definition traccar :: "(event list \<Rightarrow> auth_reply fetched) \<Rightarrow> (event list \<Rightarrow> api_reply fetched)
    \<Rightarrow> upstream" where
  "traccar login api =
     \<lparr>TRACCAR_URL = ''https://traccar.example'', upstream_auth = login, upstream_api = api\<rparr>"

text \<open>Three dates as \<open>new Date(s).getTime()\<close> reads them, and a history request.\<close>

definition iso_dates :: "string \<Rightarrow> int option" where
  "iso_dates s =
     (if s = ''2024-01-01T00:00:00Z'' then Some 1704067200000
      else if s = ''2024-01-01T08:00:00Z'' then Some 1704096000000
      else if s = ''2024-01-08T00:00:00Z'' then Some 1704672000000
      else None)"

definition get_route :: "string \<Rightarrow> string \<Rightarrow> string \<Rightarrow> request" where
  "get_route deviceId fromDate toDate =
     \<lparr>req_method = ''GET'',
      req_url = ''/api/reports/route?deviceId='' @ deviceId @ ''&from='' @ fromDate
                  @ ''&to='' @ toDate\<rparr>"

definition route_params :: "string \<Rightarrow> string \<Rightarrow> string \<Rightarrow> route_query" where
  "route_params deviceId fromDate toDate =
     \<lparr>q_deviceId = Some deviceId, q_from = Some fromDate, q_to = Some toDate\<rparr>"

text \<open>A bridge whose two sockets are open.\<close>

definition bridging :: bridge where
  "bridging = \<lparr>clientWs = accepted, traccarWs = \<lparr>readyState = OPEN, calls = []\<rparr>,
                console = []\<rparr>"

definition get_devices :: request where
  "get_devices = \<lparr>req_method = ''GET'', req_url = ''/api/devices''\<rparr>"

definition logged_in :: server where
  "logged_in = \<lparr>sessionCookie = Some ''JSESSIONID=node0old'', events = []\<rparr>"

definition started :: server where
  "started = \<lparr>sessionCookie = None, events = []\<rparr>"

section \<open>Properties of authenticateTraccar\<close>

lemma sessionCookie_emit: "sessionCookie (emit e st) = sessionCookie st"
  by (simp add: emit_def)

lemma events_emit: "events (emit e st) = events st @ [e]"
  by (simp add: emit_def)

text \<open>
  Claim C10.  The login fails exactly on its three failure paths (the request is rejected
  by the transport, the status is not 2xx, or the response carries no set-cookie header),
  and on each of them the stored session cookie keeps the value it had before the call.
\<close>

theorem authenticateTraccar_failure_keeps_cookie:
  "(\<not> fst (authenticateTraccar login st) \<longleftrightarrow>
      (case login (events st @ [Log ''Authenticating with Traccar...'', AuthRequest]) of
         Threw msg \<Rightarrow> True
       | Replied response \<Rightarrow> \<not> ok (a_status response) \<or> a_set_cookie response = None))
   \<and> (\<not> fst (authenticateTraccar login st) \<longrightarrow>
        sessionCookie (snd (authenticateTraccar login st)) = sessionCookie st)"
  by (simp add: authenticateTraccar_def Let_def sessionCookie_emit events_emit
           split: fetched.split option.split)

theorem authenticateTraccar_failure_keeps_cookie_witness:
  "\<not> fst (authenticateTraccar (\<lambda>h. Replied \<lparr>a_status = 401, a_set_cookie = Some [''JSESSIONID=new'']\<rparr>)
            \<lparr>sessionCookie = Some ''JSESSIONID=old'', events = []\<rparr>)
   \<and> sessionCookie (snd (authenticateTraccar
            (\<lambda>h. Replied \<lparr>a_status = 401, a_set_cookie = Some [''JSESSIONID=new'']\<rparr>)
            \<lparr>sessionCookie = Some ''JSESSIONID=old'', events = []\<rparr>)) = Some ''JSESSIONID=old''"
  using authenticateTraccar_failure_keeps_cookie
    [of "\<lambda>h. Replied \<lparr>a_status = 401, a_set_cookie = Some [''JSESSIONID=new'']\<rparr>"
        "\<lparr>sessionCookie = Some ''JSESSIONID=old'', events = []\<rparr>"]
  by (simp add: ok_def)

section \<open>Properties of the heartbeat\<close>

lemma two_sweeps_snoc:
  "two_sweeps (bs @ [b]) \<longleftrightarrow> two_sweeps bs \<or> (bs \<noteq> [] \<and> last bs = Sweep \<and> b = Sweep)"
  by (induction bs rule: two_sweeps.induct) auto

lemma beats_snoc: "beats (bs @ [b]) ws = beat_step (beats bs ws) b"
  by (simp add: beats_def)

lemma terminated_sweep:
  "terminated (fst (heartbeat_client ws)) \<longleftrightarrow> terminated ws \<or> \<not> isAlive ws"
  by (simp add: heartbeat_client_def terminated_def ws_terminate_def ws_ping_def shut_def
        invoke_def)

lemma isAlive_sweep: "isAlive ws \<Longrightarrow> \<not> isAlive (fst (heartbeat_client ws))"
  by (simp add: heartbeat_client_def ws_ping_def invoke_def)

lemma on_pong_props: "isAlive (on_pong ws) \<and> terminated (on_pong ws) = terminated ws"
  by (simp add: on_pong_def terminated_def)

text \<open>
  Along any history of a connection: it has been terminated exactly when two sweeps came
  in a row, and while it lives its flag is set exactly when the last thing that happened
  to it was its acceptance or a pong.
\<close>

lemma beats_invariant:
  "(terminated (beats bs accepted) \<longleftrightarrow> two_sweeps bs) \<and>
   (\<not> terminated (beats bs accepted) \<longrightarrow>
      (isAlive (beats bs accepted) \<longleftrightarrow> bs = [] \<or> last bs = Pong))"
proof (induction bs rule: rev_induct)
  case Nil
  show ?case by (simp add: beats_def accepted_def terminated_def)
next
  case (snoc b bs)
  show ?case
  proof (cases "terminated (beats bs accepted)")
    case True
    with snoc show ?thesis
      by (simp add: beats_snoc beat_step_def two_sweeps_snoc)
  next
    case False
    with snoc have ts: "\<not> two_sweeps bs"
      and alive: "isAlive (beats bs accepted) \<longleftrightarrow> bs = [] \<or> last bs = Pong" by simp_all
    show ?thesis
    proof (cases b)
      case Sweep
      show ?thesis
      proof (cases "bs = []")
        case True
        with Sweep show ?thesis
          by (simp add: beats_def beat_step_def accepted_def terminated_def heartbeat_client_def
                ws_ping_def invoke_def)
      next
        case nonempty: False
        with Sweep False ts alive show ?thesis
          using isAlive_sweep [of "beats bs accepted"]
          by (cases "last bs")
             (auto simp: beats_snoc beat_step_def two_sweeps_snoc terminated_sweep)
      qed
    next
      case Pong
      with False ts show ?thesis
        by (simp add: beats_snoc beat_step_def two_sweeps_snoc on_pong_props)
    qed
  qed
qed

text \<open>
  Claim C6.  At a sweep, a connection whose flag is false is terminated (with
  \<open>terminate()\<close>, not \<open>close()\<close>); a live connection whose flag is true is not
  terminated by that sweep: its flag is cleared and it is pinged, so it survives one
  unanswered round; a pong sets the flag again; and over any history of sweeps and pongs
  a newly accepted connection has been terminated exactly when two sweeps came in a row
  with no pong between them.
\<close>

theorem heartbeat_reaps_after_two_sweeps:
  "(\<not> isAlive ws \<longrightarrow> terminated (fst (heartbeat_client ws))
        \<and> calls (fst (heartbeat_client ws)) = calls ws @ [Terminate])
   \<and> (isAlive ws \<and> \<not> terminated ws \<longrightarrow>
        \<not> terminated (fst (heartbeat_client ws)) \<and> \<not> isAlive (fst (heartbeat_client ws))
        \<and> calls (fst (heartbeat_client ws)) = calls ws @ [Ping])
   \<and> isAlive (on_pong ws) \<and> calls (on_pong ws) = calls ws
   \<and> (terminated (beats bs accepted) \<longleftrightarrow> two_sweeps bs)"
proof -
  have "calls (fst (heartbeat_client ws)) =
          calls ws @ [if isAlive ws then Ping else Terminate]"
    by (simp add: heartbeat_client_def ws_terminate_def ws_ping_def shut_def invoke_def)
  moreover have "calls (on_pong ws) = calls ws"
    by (simp add: on_pong_def)
  ultimately show ?thesis
    using terminated_sweep [of ws] isAlive_sweep [of ws] on_pong_props [of ws]
      beats_invariant [of bs]
    by simp
qed

theorem heartbeat_reaps_after_two_sweeps_witness:
  "terminated (beats [Sweep, Pong, Sweep, Sweep] accepted)
   \<and> \<not> terminated (beats [Sweep, Pong, Sweep] accepted)
   \<and> \<not> terminated (fst (heartbeat_client accepted))
   \<and> terminated (fst (heartbeat_client (fst (heartbeat_client accepted))))"
  using heartbeat_reaps_after_two_sweeps [of accepted "[Sweep, Pong, Sweep, Sweep]"]
    heartbeat_reaps_after_two_sweeps [of accepted "[Sweep, Pong, Sweep]"]
    heartbeat_reaps_after_two_sweeps [of "fst (heartbeat_client accepted)" "[]"]
  by (simp add: accepted_def terminated_def heartbeat_client_def ws_ping_def invoke_def)

section \<open>Properties of the browser's reconnection\<close>

lemma onclose_attempts:
  "reconnectAttempts (onclose m) =
     (if reconnectAttempts m < maxReconnectAttempts then Suc (reconnectAttempts m)
      else reconnectAttempts m)"
  by (simp add: onclose_def scheduleReconnect_def Let_def)

lemma onclose_timeouts:
  "timeouts (onclose m) =
     (if reconnectAttempts m < maxReconnectAttempts
      then timeouts m @ [reconnect_delay (Suc (reconnectAttempts m))]
      else timeouts m)"
  by (simp add: onclose_def scheduleReconnect_def reconnect_delay_def Let_def)

text \<open>The state after \<open>k\<close> disconnects in a row, starting with the counter at zero.\<close>

lemma onclose_funpow:
  "reconnectAttempts m = 0 \<Longrightarrow>
   reconnectAttempts ((onclose ^^ k) m) = min k maxReconnectAttempts \<and>
   timeouts ((onclose ^^ k) m) =
     timeouts m @ map reconnect_delay [1..<Suc (min k maxReconnectAttempts)]"
proof (induction k)
  case 0
  then show ?case by simp
next
  case (Suc k)
  let ?m = "(onclose ^^ k) m"
  from Suc have att: "reconnectAttempts ?m = min k maxReconnectAttempts"
    and ts: "timeouts ?m = timeouts m @ map reconnect_delay [1..<Suc (min k maxReconnectAttempts)]"
    by simp_all
  have step: "(onclose ^^ Suc k) m = onclose ?m" by simp
  show ?case
  proof (cases "k < maxReconnectAttempts")
    case True
    then have "min k maxReconnectAttempts = k" "min (Suc k) maxReconnectAttempts = Suc k"
      by simp_all
    with att ts True show ?thesis
      unfolding step by (simp add: onclose_attempts onclose_timeouts)
  next
    case False
    then have "min k maxReconnectAttempts = maxReconnectAttempts"
      "min (Suc k) maxReconnectAttempts = maxReconnectAttempts" by simp_all
    with att ts False show ?thesis
      unfolding step by (simp add: onclose_attempts onclose_timeouts)
  qed
qed

lemma reconnect_delay_grows:
  "reconnect_delay n \<le> 30000 \<and> reconnect_delay n \<le> reconnect_delay (Suc n) \<and>
   (reconnect_delay n < 30000 \<longrightarrow> reconnect_delay n < reconnect_delay (Suc n))"
  by (simp add: reconnect_delay_def RECONNECT_INTERVAL_def min_def)

text \<open>
  Claim C9.  After \<open>k\<close> disconnects in a row, counted from a successful connection, the
  delays scheduled are those of the attempts 1 to \<open>min k 10\<close>, attempt \<open>n\<close> waiting
  \<open>min (5000 * n) 30000\<close> milliseconds; so at most ten are scheduled, and a disconnect
  after the tenth schedules nothing.  The delay never exceeds 30000, never decreases, and
  grows strictly from one attempt to the next as long as it is below 30000.  A successful
  connection sets the counter to zero.
\<close>

theorem reconnect_backoff_bounded:
  assumes "reconnectAttempts m = 0"
  shows "timeouts ((onclose ^^ k) m) =
           timeouts m @ map (\<lambda>n. min (RECONNECT_INTERVAL * n) 30000)
                          [1..<Suc (min k maxReconnectAttempts)]
         \<and> length (timeouts ((onclose ^^ k) m)) \<le> length (timeouts m) + 10
         \<and> (maxReconnectAttempts \<le> k \<longrightarrow>
              timeouts (onclose ((onclose ^^ k) m)) = timeouts ((onclose ^^ k) m))
         \<and> reconnect_delay n \<le> 30000 \<and> reconnect_delay n \<le> reconnect_delay (Suc n)
         \<and> (reconnect_delay n < 30000 \<longrightarrow> reconnect_delay n < reconnect_delay (Suc n))
         \<and> reconnectAttempts (onopen ((onclose ^^ k) m)) = 0"
proof -
  note run = onclose_funpow [OF assms, of k]
  have fmt: "reconnect_delay = (\<lambda>n. min (RECONNECT_INTERVAL * n) 30000)"
    by (rule ext) (simp add: reconnect_delay_def)
  have a: "timeouts ((onclose ^^ k) m) =
             timeouts m @ map (\<lambda>n. min (RECONNECT_INTERVAL * n) 30000)
                            [1..<Suc (min k maxReconnectAttempts)]"
    using run by (simp add: fmt)
  have b: "length (timeouts ((onclose ^^ k) m)) \<le> length (timeouts m) + 10"
    using run by (simp add: maxReconnectAttempts_def)
  have c: "maxReconnectAttempts \<le> k \<longrightarrow>
             timeouts (onclose ((onclose ^^ k) m)) = timeouts ((onclose ^^ k) m)"
    using run by (simp add: onclose_timeouts)
  have d: "reconnectAttempts (onopen ((onclose ^^ k) m)) = 0"
    by (simp add: onopen_def)
  from a b c d reconnect_delay_grows [of n] show ?thesis by blast
qed

theorem reconnect_backoff_bounded_witness:
  "timeouts ((onclose ^^ 12) \<lparr>isConnected = True, reconnectAttempts = 0, timeouts = []\<rparr>) =
     [5000, 10000, 15000, 20000, 25000, 30000, 30000, 30000, 30000, 30000]"
  using reconnect_backoff_bounded
    [of "\<lparr>isConnected = True, reconnectAttempts = 0, timeouts = []\<rparr>" 12 0]
  by (simp add: maxReconnectAttempts_def RECONNECT_INTERVAL_def upt_rec)

section \<open>Properties of the relay\<close>

lemmas example_defs = traccar_def login_accepted_def login_refused_def expired_until_def
  html_page_def get_devices_def logged_in_def started_def auth_requests_def api_requests_def
  is_api_request_def forwarded_url_def

lemmas relay_defs = ensure_session_def authenticateTraccar_def emit_def falsy_def ok_def Let_def
  query_part_def non_json_def split_first_def digit_def

lemma startsWith_append: "startsWith (p @ s) p"
  by (induction p) simp_all

text \<open>
  A login adds three entries to the trace: its opening line, the request and its closing
  line, which reports an error when the login fails.
\<close>

lemma authenticate_events:
  "\<exists>line. events (snd (authenticateTraccar login st)) =
      events st @ [Log ''Authenticating with Traccar...'', AuthRequest, Log line]
    \<and> (\<not> fst (authenticateTraccar login st) \<longrightarrow> auth_error_line (Log line))"
  using startsWith_append [of "''Authentication error: ''"]
  by (simp add: authenticateTraccar_def Let_def events_emit auth_error_line_def
           split: fetched.split option.split)

lemma ensure_session_Inl:
  "ensure_session up st = Inl (r, st1) \<Longrightarrow>
     falsy (sessionCookie st) \<and> authenticateTraccar (upstream_auth up) st = (False, st1) \<and>
     r = \<lparr>res_status = 503, res_body = ErrorBody ''Unable to connect to Traccar''\<rparr>"
  by (auto simp: ensure_session_def Let_def split: if_splits prod.splits)

lemma ensure_session_Inr:
  "ensure_session up st = Inr st1 \<Longrightarrow>
     (if falsy (sessionCookie st) then authenticateTraccar (upstream_auth up) st = (True, st1)
      else st1 = st)"
  by (auto simp: ensure_session_def Let_def split: if_splits prod.splits)

text \<open>A 503 is only ever answered right after a failed login.\<close>

lemma proxy_503:
  assumes run: "proxyToTraccar up req endpoint st = Some y"
  shows "res_status (fst y) = 503 \<longrightarrow>
           events (snd y) \<noteq> [] \<and> auth_error_line (last (events (snd y)))"
proof (rule proxyToTraccar.raw_induct
    [where P = "\<lambda>up req endpoint st y. res_status (fst y) = 503 \<longrightarrow>
           events (snd y) \<noteq> [] \<and> auth_error_line (last (events (snd y)))", OF _ run],
    goal_cases)
  case (1 self up req endpoint st y)
  note IH = 1(1) and body = 1(2)
  show ?case
  proof (cases "ensure_session up st")
    case (Inl a)
    with body have "y = a" by simp
    with Inl ensure_session_Inl [of up st "fst a" "snd a"]
      authenticate_events [of "upstream_auth up" st]
    show ?thesis by auto
  next
    case (Inr st1)
    then show ?thesis
      using body IH
        authenticate_events [of "upstream_auth up"
           "emit (Log ''Session expired, re-authenticating...'')
              (emit (ApiRequest (req_method req)
                 (TRACCAR_URL up @ endpoint @ query_part (req_url req)) (sessionCookie st1)) st1)"]
      by (auto simp: Let_def split: fetched.splits if_splits prod.splits sum.splits)
  qed
qed

text \<open>
  A run that answers has only added to the trace, and has sent the upstream at least one
  request.
\<close>

lemma proxy_extends:
  assumes run: "proxyToTraccar up req endpoint st = Some y"
  shows "\<exists>evs. events (snd y) = events st @ evs \<and> (\<exists>e\<in>set evs. is_request e)"
proof (rule proxyToTraccar.raw_induct
    [where P = "\<lambda>up req endpoint st y.
       \<exists>evs. events (snd y) = events st @ evs \<and> (\<exists>e\<in>set evs. is_request e)", OF _ run],
    goal_cases)
  case (1 self up req endpoint st y)
  note IH = 1(1) and body = 1(2)
  show ?case
  proof (cases "ensure_session up st")
    case (Inl a)
    with body have "y = a" by simp
    with Inl ensure_session_Inl [of up st "fst a" "snd a"]
      authenticate_events [of "upstream_auth up" st]
    show ?thesis by (auto simp: is_request_def)
  next
    case (Inr st1)
    have pre: "\<exists>evs. events st1 = events st @ evs"
      using ensure_session_Inr [OF Inr] authenticate_events [of "upstream_auth up" st]
      by (auto split: if_splits)
    let ?st2 = "emit (ApiRequest (req_method req)
                  (TRACCAR_URL up @ endpoint @ query_part (req_url req)) (sessionCookie st1)) st1"
    let ?st2' = "emit (Log ''Session expired, re-authenticating...'') ?st2"
    show ?thesis
    proof (cases "upstream_api up (events ?st2)")
      case (Threw msg)
      with Inr pre body show ?thesis
        by (auto simp: Let_def events_emit is_request_def)
    next
      case (Replied response)
      show ?thesis
      proof (cases "r_status response = 401")
        case False
        with Replied Inr pre body show ?thesis
          by (auto simp: Let_def events_emit is_request_def split: sum.splits if_splits)
      next
        case True
        obtain ok3 st3 where
          auth: "authenticateTraccar (upstream_auth up) ?st2' = (ok3, st3)"
          by fastforce
        with authenticate_events [of "upstream_auth up" ?st2'] pre
        obtain evs3 where ev3: "events st3 = events st @ evs3" "\<exists>e\<in>set evs3. is_request e"
          by (auto simp: events_emit is_request_def)
        show ?thesis
        proof (cases ok3)
          case False
          with True Replied Inr body auth have "y = (\<lparr>res_status = 503,
              res_body = ErrorBody ''Unable to reconnect to Traccar''\<rparr>, st3)"
            by (simp add: Let_def)
          with ev3 show ?thesis by auto
        next
          case ok: True
          with True Replied Inr body auth have "self up req endpoint st3 = Some y"
            by (simp add: Let_def)
          from IH [OF this] ev3 show ?thesis by auto
        qed
      qed
    qed
  qed
qed

text \<open>Once the session guard is passed, the next entry of the trace is the forwarded request.\<close>

lemma proxy_first_request:
  assumes run: "proxyToTraccar up req endpoint st = Some y"
    and session: "ensure_session up st = Inr st1"
  shows "\<exists>rest. events (snd y) =
           events st1 @ ApiRequest (req_method req) (forwarded_url up req endpoint)
                          (sessionCookie st1) # rest"
proof -
  let ?st2 = "emit (ApiRequest (req_method req) (forwarded_url up req endpoint)
                  (sessionCookie st1)) st1"
  let ?st2' = "emit (Log ''Session expired, re-authenticating...'') ?st2"
  note body = run [unfolded proxyToTraccar.simps [of up req endpoint st]]
  show ?thesis
  proof (cases "upstream_api up (events ?st2)")
    case (Threw msg)
    with session body show ?thesis
      by (auto simp: Let_def events_emit forwarded_url_def)
  next
    case (Replied response)
    show ?thesis
    proof (cases "r_status response = 401")
      case False
      with Replied session body show ?thesis
        by (auto simp: Let_def events_emit forwarded_url_def split: sum.splits if_splits)
    next
      case True
      obtain ok3 st3 where
        auth: "authenticateTraccar (upstream_auth up) ?st2' = (ok3, st3)"
        by fastforce
      with authenticate_events [of "upstream_auth up" ?st2']
      obtain evs3 where ev3: "events st3 = events ?st2 @ evs3"
        by (auto simp: events_emit)
      show ?thesis
      proof (cases ok3)
        case False
        with True Replied session body auth have "snd y = st3"
          by (auto simp: Let_def forwarded_url_def)
        with ev3 show ?thesis by (simp add: events_emit)
      next
        case ok: True
        with True Replied session body auth
        have "proxyToTraccar up req endpoint st3 = Some y"
          by (simp add: Let_def forwarded_url_def)
        from proxy_extends [OF this] ev3 show ?thesis by (auto simp: events_emit)
      qed
    qed
  qed
qed

text \<open>
  Against an upstream that accepts every login and still answers 401 to every forwarded
  call, the relay logs in and calls again for ever: it never answers.
\<close>

lemma proxy_never_answers:
  assumes api: "\<And>h. \<exists>response. upstream_api up h = Replied response \<and> r_status response = 401"
    and login: "upstream_auth up = login_accepted"
  shows "proxyToTraccar up req endpoint st = None"
proof (rule ccontr)
  assume "proxyToTraccar up req endpoint st \<noteq> None"
  then obtain y where run: "proxyToTraccar up req endpoint st = Some y" by blast
  have "upstream_auth up = login_accepted \<and>
          (\<forall>h. \<exists>response. upstream_api up h = Replied response \<and> r_status response = 401)
        \<longrightarrow> False"
  proof (rule proxyToTraccar.raw_induct
      [where P = "\<lambda>up req endpoint st y. upstream_auth up = login_accepted \<and>
          (\<forall>h. \<exists>response. upstream_api up h = Replied response \<and> r_status response = 401)
        \<longrightarrow> False", OF _ run], goal_cases)
    case (1 self up req endpoint st y)
    note IH = 1(1) and body = 1(2)
    show ?case
    proof
      assume hyp: "upstream_auth up = login_accepted \<and>
          (\<forall>h. \<exists>response. upstream_api up h = Replied response \<and> r_status response = 401)"
      have accepted: "\<And>s. fst (authenticateTraccar login_accepted s)"
        by (simp add: authenticateTraccar_def login_accepted_def ok_def Let_def)
      from hyp accepted [of st] have "ensure_session up st =
          Inr (if falsy (sessionCookie st) then snd (authenticateTraccar login_accepted st) else st)"
        by (simp add: ensure_session_def Let_def case_prod_beta)
      then obtain st1 where session: "ensure_session up st = Inr st1" by blast
      let ?st2 = "emit (ApiRequest (req_method req)
                  (TRACCAR_URL up @ endpoint @ query_part (req_url req)) (sessionCookie st1)) st1"
      let ?st2' = "emit (Log ''Session expired, re-authenticating...'') ?st2"
      from hyp obtain response where
        reply: "upstream_api up (events ?st2) = Replied response" "r_status response = 401"
        by blast
      from body session reply hyp accepted [of ?st2']
      have "self up req endpoint (snd (authenticateTraccar login_accepted ?st2')) = Some y"
        by (simp add: Let_def case_prod_beta)
      from IH [OF this] hyp show False by blast
    qed
  qed
  with api login show False by blast
qed

text \<open>A login that succeeds closes with its success line.\<close>

lemma authenticate_events_ok:
  "fst (authenticateTraccar login st) \<Longrightarrow>
     events (snd (authenticateTraccar login st)) =
       events st @ [Log ''Authenticating with Traccar...'', AuthRequest,
                    Log ''Authentication successful!'']"
  by (cases "login (events st @ [Log ''Authenticating with Traccar...'', AuthRequest])")
     (auto simp: authenticateTraccar_def Let_def events_emit split: option.splits if_splits)

text \<open>
  Once the session guard is passed the relay sends the forwarded request.  Unless the
  answer to it is a 401, the relay answers, and sends the upstream nothing more.
\<close>

lemma proxy_forwards:
  assumes session: "ensure_session up st = Inr st1"
    and reply: "case upstream_api up (events st1 @ [ApiRequest (req_method req)
                  (forwarded_url up req endpoint) (sessionCookie st1)]) of
                  Threw msg \<Rightarrow> True
                | Replied response \<Rightarrow> r_status response \<noteq> 401"
  shows "\<exists>y rest. proxyToTraccar up req endpoint st = Some y
           \<and> events (snd y) = events st1 @
                ApiRequest (req_method req) (forwarded_url up req endpoint) (sessionCookie st1)
                # rest
           \<and> (\<forall>e\<in>set rest. \<not> is_request e)"
proof (cases "upstream_api up (events st1 @ [ApiRequest (req_method req)
                  (forwarded_url up req endpoint) (sessionCookie st1)])")
  case (Threw msg)
  with session show ?thesis
    by (subst proxyToTraccar.simps)
       (simp add: Let_def events_emit forwarded_url_def is_request_def)
next
  case (Replied response)
  with reply have "r_status response \<noteq> 401" by simp
  with Replied session show ?thesis
    by (subst proxyToTraccar.simps)
       (cases "r_json response";
        simp add: Let_def events_emit forwarded_url_def is_request_def)
qed

text \<open>
  When the answer is a 401 the relay logs in once, and then either answers 503 or starts
  over from the state the login left.
\<close>

lemma proxy_expired:
  assumes "ensure_session up st = Inr st1"
    and "upstream_api up (events st1 @ [ApiRequest (req_method req)
           (forwarded_url up req endpoint) (sessionCookie st1)]) = Replied response"
    and "r_status response = 401"
  shows "\<exists>ok3 st3 line.
           events st3 = events st1 @
             [ApiRequest (req_method req) (forwarded_url up req endpoint) (sessionCookie st1),
              Log ''Session expired, re-authenticating...'',
              Log ''Authenticating with Traccar...'', AuthRequest, Log line]
         \<and> proxyToTraccar up req endpoint st =
             (if ok3 then proxyToTraccar up req endpoint st3
              else Some (\<lparr>res_status = 503,
                          res_body = ErrorBody ''Unable to reconnect to Traccar''\<rparr>, st3))"
proof -
  let ?st2 = "emit (ApiRequest (req_method req) (forwarded_url up req endpoint)
                  (sessionCookie st1)) st1"
  let ?st2' = "emit (Log ''Session expired, re-authenticating...'') ?st2"
  obtain ok3 st3 where auth: "authenticateTraccar (upstream_auth up) ?st2' = (ok3, st3)"
    by fastforce
  with authenticate_events [of "upstream_auth up" ?st2']
  obtain line where "events st3 = events st1 @
             [ApiRequest (req_method req) (forwarded_url up req endpoint) (sessionCookie st1),
              Log ''Session expired, re-authenticating...'',
              Log ''Authenticating with Traccar...'', AuthRequest, Log line]"
    by (auto simp: events_emit)
  moreover have "proxyToTraccar up req endpoint st =
             (if ok3 then proxyToTraccar up req endpoint st3
              else Some (\<lparr>res_status = 503,
                          res_body = ErrorBody ''Unable to reconnect to Traccar''\<rparr>, st3))"
    using assms auth
    by (subst proxyToTraccar.simps)
       (simp add: Let_def events_emit forwarded_url_def)
  ultimately show ?thesis by blast
qed

text \<open>
  Claim C4.  When the relay is called with no session cookie it logs in first.  If the
  login fails, it answers 503 and the trace has grown by the login alone, with no
  forwarded request.  If the login succeeds, the trace holds that one login, and the
  relay then sends the forwarded request with the cookie the login stored: unless the
  answer to it is a 401 the relay answers, with a trace that is the login, the forwarded
  request and no further request; on a 401 it logs in again, from a trace that is the login
  and the forwarded request, and answers 503 or starts over.  In every run that answers,
  exactly that one login precedes the first forwarded request.
\<close>

theorem proxy_without_session:
  assumes "falsy (sessionCookie st)"
  shows "(\<not> fst (authenticateTraccar (upstream_auth up) st) \<longrightarrow>
            proxyToTraccar up req endpoint st =
              Some (\<lparr>res_status = 503, res_body = ErrorBody ''Unable to connect to Traccar''\<rparr>,
                    snd (authenticateTraccar (upstream_auth up) st))
            \<and> (\<exists>line. events (snd (authenticateTraccar (upstream_auth up) st)) =
                  events st @ [Log ''Authenticating with Traccar...'', AuthRequest, Log line]))
         \<and> (fst (authenticateTraccar (upstream_auth up) st) \<longrightarrow>
              (\<forall>y. proxyToTraccar up req endpoint st = Some y \<longrightarrow>
                 (\<exists>line rest. events (snd y) =
                    events st @ [Log ''Authenticating with Traccar...'', AuthRequest, Log line,
                      ApiRequest (req_method req) (forwarded_url up req endpoint)
                        (sessionCookie (snd (authenticateTraccar (upstream_auth up) st)))]
                    @ rest))
              \<and> ((case upstream_api up
                         (events st @ [Log ''Authenticating with Traccar...'', AuthRequest,
                            Log ''Authentication successful!'',
                            ApiRequest (req_method req) (forwarded_url up req endpoint)
                              (sessionCookie (snd (authenticateTraccar (upstream_auth up) st)))])
                  of
                    Threw msg \<Rightarrow> True
                  | Replied response \<Rightarrow> r_status response \<noteq> 401)
                 \<longrightarrow> (\<exists>y rest. proxyToTraccar up req endpoint st = Some y
                        \<and> events (snd y) =
                            events st @ [Log ''Authenticating with Traccar...'', AuthRequest,
                              Log ''Authentication successful!'',
                              ApiRequest (req_method req) (forwarded_url up req endpoint)
                                (sessionCookie (snd (authenticateTraccar (upstream_auth up) st)))]
                            @ rest
                        \<and> (\<forall>e\<in>set rest. \<not> is_request e)))
              \<and> (\<forall>response.
                    upstream_api up
                      (events st @ [Log ''Authenticating with Traccar...'', AuthRequest,
                         Log ''Authentication successful!'',
                         ApiRequest (req_method req) (forwarded_url up req endpoint)
                           (sessionCookie (snd (authenticateTraccar (upstream_auth up) st)))])
                      = Replied response \<and> r_status response = 401
                    \<longrightarrow> (\<exists>ok3 st3 line.
                           events st3 =
                             events st @ [Log ''Authenticating with Traccar...'', AuthRequest,
                               Log ''Authentication successful!'',
                               ApiRequest (req_method req) (forwarded_url up req endpoint)
                                 (sessionCookie (snd (authenticateTraccar (upstream_auth up) st))),
                               Log ''Session expired, re-authenticating...'',
                               Log ''Authenticating with Traccar...'', AuthRequest, Log line]
                           \<and> proxyToTraccar up req endpoint st =
                               (if ok3 then proxyToTraccar up req endpoint st3
                                else Some (\<lparr>res_status = 503,
                                     res_body = ErrorBody ''Unable to reconnect to Traccar''\<rparr>,
                                     st3)))))"
proof (cases "fst (authenticateTraccar (upstream_auth up) st)")
  case False
  with assms have "ensure_session up st =
      Inl (\<lparr>res_status = 503, res_body = ErrorBody ''Unable to connect to Traccar''\<rparr>,
           snd (authenticateTraccar (upstream_auth up) st))"
    by (simp add: ensure_session_def Let_def case_prod_beta)
  then have "proxyToTraccar up req endpoint st =
      Some (\<lparr>res_status = 503, res_body = ErrorBody ''Unable to connect to Traccar''\<rparr>,
            snd (authenticateTraccar (upstream_auth up) st))"
    by (subst proxyToTraccar.simps) simp
  with False authenticate_events [of "upstream_auth up" st] show ?thesis by auto
next
  case True
  let ?st1 = "snd (authenticateTraccar (upstream_auth up) st)"
  let ?request = "ApiRequest (req_method req) (forwarded_url up req endpoint)
                    (sessionCookie ?st1)"
  from True assms have session: "ensure_session up st = Inr ?st1"
    by (simp add: ensure_session_def Let_def case_prod_beta)
  note login = authenticate_events_ok [OF True]
  have sent: "events ?st1 @ [?request] =
      events st @ [Log ''Authenticating with Traccar...'', AuthRequest,
        Log ''Authentication successful!'', ?request]"
    by (simp add: login)
  have partial: "\<forall>y. proxyToTraccar up req endpoint st = Some y \<longrightarrow>
      (\<exists>line rest. events (snd y) =
         events st @ [Log ''Authenticating with Traccar...'', AuthRequest, Log line, ?request]
         @ rest)"
  proof (intro allI impI)
    fix y assume "proxyToTraccar up req endpoint st = Some y"
    from proxy_first_request [OF this session]
    obtain rest where "events (snd y) = events ?st1 @ ?request # rest" by blast
    then have "events (snd y) =
         events st @ [Log ''Authenticating with Traccar...'', AuthRequest,
           Log ''Authentication successful!'', ?request] @ rest"
      by (simp add: login)
    then show "\<exists>line rest. events (snd y) =
         events st @ [Log ''Authenticating with Traccar...'', AuthRequest, Log line, ?request]
         @ rest"
      by blast
  qed
  have answers: "(case upstream_api up
                         (events st @ [Log ''Authenticating with Traccar...'', AuthRequest,
                            Log ''Authentication successful!'', ?request])
                  of Threw msg \<Rightarrow> True | Replied response \<Rightarrow> r_status response \<noteq> 401)
      \<longrightarrow> (\<exists>y rest. proxyToTraccar up req endpoint st = Some y
             \<and> events (snd y) =
                 events st @ [Log ''Authenticating with Traccar...'', AuthRequest,
                   Log ''Authentication successful!'', ?request] @ rest
             \<and> (\<forall>e\<in>set rest. \<not> is_request e))"
  proof
    assume "case upstream_api up
                         (events st @ [Log ''Authenticating with Traccar...'', AuthRequest,
                            Log ''Authentication successful!'', ?request])
                  of Threw msg \<Rightarrow> True | Replied response \<Rightarrow> r_status response \<noteq> 401"
    then have "case upstream_api up (events ?st1 @ [?request])
                  of Threw msg \<Rightarrow> True | Replied response \<Rightarrow> r_status response \<noteq> 401"
      by (simp only: sent)
    from proxy_forwards [OF session this]
    obtain y rest where run: "proxyToTraccar up req endpoint st = Some y"
      and trace: "events (snd y) = events ?st1 @ ?request # rest"
      and quiet: "\<forall>e\<in>set rest. \<not> is_request e"
      by blast
    from trace have "events (snd y) =
         events st @ [Log ''Authenticating with Traccar...'', AuthRequest,
           Log ''Authentication successful!'', ?request] @ rest"
      by (simp add: login)
    with run quiet
    show "\<exists>y rest. proxyToTraccar up req endpoint st = Some y
             \<and> events (snd y) =
                 events st @ [Log ''Authenticating with Traccar...'', AuthRequest,
                   Log ''Authentication successful!'', ?request] @ rest
             \<and> (\<forall>e\<in>set rest. \<not> is_request e)"
      by blast
  qed
  have expired: "\<forall>response.
      upstream_api up
        (events st @ [Log ''Authenticating with Traccar...'', AuthRequest,
           Log ''Authentication successful!'', ?request])
        = Replied response \<and> r_status response = 401
      \<longrightarrow> (\<exists>ok3 st3 line.
             events st3 =
               events st @ [Log ''Authenticating with Traccar...'', AuthRequest,
                 Log ''Authentication successful!'', ?request,
                 Log ''Session expired, re-authenticating...'',
                 Log ''Authenticating with Traccar...'', AuthRequest, Log line]
             \<and> proxyToTraccar up req endpoint st =
                 (if ok3 then proxyToTraccar up req endpoint st3
                  else Some (\<lparr>res_status = 503,
                       res_body = ErrorBody ''Unable to reconnect to Traccar''\<rparr>, st3)))"
  proof (intro allI impI)
    fix response
    assume "upstream_api up
        (events st @ [Log ''Authenticating with Traccar...'', AuthRequest,
           Log ''Authentication successful!'', ?request])
        = Replied response \<and> r_status response = 401"
    then have r: "upstream_api up (events ?st1 @ [?request]) = Replied response"
      and u: "r_status response = 401"
      by (simp_all only: sent)
    from proxy_expired [OF session r u]
    obtain ok3 st3 line where trace: "events st3 = events ?st1 @
             [?request, Log ''Session expired, re-authenticating...'',
              Log ''Authenticating with Traccar...'', AuthRequest, Log line]"
      and run: "proxyToTraccar up req endpoint st =
                 (if ok3 then proxyToTraccar up req endpoint st3
                  else Some (\<lparr>res_status = 503,
                       res_body = ErrorBody ''Unable to reconnect to Traccar''\<rparr>, st3))"
      by blast
    from trace have "events st3 =
               events st @ [Log ''Authenticating with Traccar...'', AuthRequest,
                 Log ''Authentication successful!'', ?request,
                 Log ''Session expired, re-authenticating...'',
                 Log ''Authenticating with Traccar...'', AuthRequest, Log line]"
      by (simp add: login)
    with run
    show "\<exists>ok3 st3 line.
             events st3 =
               events st @ [Log ''Authenticating with Traccar...'', AuthRequest,
                 Log ''Authentication successful!'', ?request,
                 Log ''Session expired, re-authenticating...'',
                 Log ''Authenticating with Traccar...'', AuthRequest, Log line]
             \<and> proxyToTraccar up req endpoint st =
                 (if ok3 then proxyToTraccar up req endpoint st3
                  else Some (\<lparr>res_status = 503,
                       res_body = ErrorBody ''Unable to reconnect to Traccar''\<rparr>, st3))"
      by blast
  qed
  show ?thesis
    by (rule conjI, simp add: True, rule impI, rule conjI, rule partial, rule conjI,
        rule answers, rule expired)
qed

theorem proxy_without_session_witness:
  "falsy (sessionCookie started)
   \<and> proxyToTraccar (traccar login_refused (expired_until 0)) get_devices ''/api/devices'' started =
       Some (\<lparr>res_status = 503, res_body = ErrorBody ''Unable to connect to Traccar''\<rparr>,
             \<lparr>sessionCookie = None,
                events = [Log ''Authenticating with Traccar...'', AuthRequest,
                          Log ''Authentication error: Authentication failed: 401'']\<rparr>)
   \<and> proxyToTraccar (traccar login_accepted (expired_until 0)) get_devices ''/api/devices'' started =
       Some (\<lparr>res_status = 200, res_body = Data ''[]''\<rparr>,
             \<lparr>sessionCookie = Some ''JSESSIONID=node0fresh'',
                events = [Log ''Authenticating with Traccar...'', AuthRequest,
                          Log ''Authentication successful!'',
                          ApiRequest ''GET'' ''https://traccar.example/api/devices''
                            (Some ''JSESSIONID=node0fresh'')]\<rparr>)"
proof -
  let ?refusing = "traccar login_refused (expired_until 0)"
  have h: "falsy (sessionCookie started)"
    by (simp add: started_def falsy_def)
  have refused: "\<not> fst (authenticateTraccar (upstream_auth ?refusing) started)"
    by (simp add: example_defs authenticateTraccar_def ok_def Let_def)
  from proxy_without_session [OF h, of ?refusing get_devices "''/api/devices''"] refused
  have "proxyToTraccar ?refusing get_devices ''/api/devices'' started =
          Some (\<lparr>res_status = 503, res_body = ErrorBody ''Unable to connect to Traccar''\<rparr>,
                snd (authenticateTraccar (upstream_auth ?refusing) started))"
    by blast
  then have a: "proxyToTraccar ?refusing get_devices ''/api/devices'' started =
       Some (\<lparr>res_status = 503, res_body = ErrorBody ''Unable to connect to Traccar''\<rparr>,
             \<lparr>sessionCookie = None,
                events = [Log ''Authenticating with Traccar...'', AuthRequest,
                          Log ''Authentication error: Authentication failed: 401'']\<rparr>)"
    by (simp add: example_defs authenticateTraccar_def emit_def ok_def Let_def digit_def)
  have b: "proxyToTraccar (traccar login_accepted (expired_until 0)) get_devices
             ''/api/devices'' started =
       Some (\<lparr>res_status = 200, res_body = Data ''[]''\<rparr>,
             \<lparr>sessionCookie = Some ''JSESSIONID=node0fresh'',
                events = [Log ''Authenticating with Traccar...'', AuthRequest,
                          Log ''Authentication successful!'',
                          ApiRequest ''GET'' ''https://traccar.example/api/devices''
                            (Some ''JSESSIONID=node0fresh'')]\<rparr>)"
    by (simp add: proxyToTraccar.simps example_defs relay_defs)
  from h a b show ?thesis by (intro conjI)
qed

text \<open>
  Claim C5.  When the upstream's answer to the forwarded request is not a 401 and its
  content type is missing or does not contain \<open>application/json\<close>, the relay answers
  502.  After the forwarded request it has only written the console line with the first
  200 characters of the body: it has sent no second request and no login, and the session
  cookie is untouched.
\<close>

theorem proxy_non_json:
  assumes "ensure_session up st = Inr st1"
    and "upstream_api up (events st1 @ [ApiRequest (req_method req)
           (forwarded_url up req endpoint) (sessionCookie st1)]) = Replied response"
    and "r_status response \<noteq> 401"
    and "non_json (r_content_type response)"
  shows "proxyToTraccar up req endpoint st =
           Some (\<lparr>res_status = 502,
                  res_body = ErrorBody ''Traccar returned non-JSON response''\<rparr>,
                 st1\<lparr>events := events st1 @
                   [ApiRequest (req_method req) (forwarded_url up req endpoint)
                      (sessionCookie st1),
                    Log (''Unexpected response from Traccar: ''
                           @ take 200 (r_text response))]\<rparr>)"
  using assms
  by (subst proxyToTraccar.simps)
     (simp add: Let_def emit_def forwarded_url_def)

theorem proxy_non_json_witness:
  "ensure_session (traccar login_accepted html_page) logged_in = Inr logged_in
   \<and> non_json (Some ''text/html'')
   \<and> proxyToTraccar (traccar login_accepted html_page) get_devices ''/api/devices'' logged_in =
       Some (\<lparr>res_status = 502, res_body = ErrorBody ''Traccar returned non-JSON response''\<rparr>,
             \<lparr>sessionCookie = Some ''JSESSIONID=node0old'',
                events = [ApiRequest ''GET'' ''https://traccar.example/api/devices''
                            (Some ''JSESSIONID=node0old''),
                          Log ''Unexpected response from Traccar: <html>maintenance</html>'']\<rparr>)"
proof -
  let ?up = "traccar login_accepted html_page"
  let ?response = "\<lparr>r_status = 200, r_content_type = Some ''text/html'',
                r_text = ''<html>maintenance</html>'', r_json = Inl ''Unexpected token <''\<rparr>"
  have h1: "ensure_session ?up logged_in = Inr logged_in"
    by (simp add: ensure_session_def logged_in_def falsy_def)
  have h2: "upstream_api ?up (events logged_in @ [ApiRequest (req_method get_devices)
         (forwarded_url ?up get_devices ''/api/devices'') (sessionCookie logged_in)]) =
       Replied ?response"
    by (simp add: traccar_def html_page_def)
  have h3: "r_status ?response \<noteq> 401" by simp
  have h4: "non_json (r_content_type ?response)"
    by (simp add: non_json_def falsy_def)
  from proxy_non_json [OF h1 h2 h3 h4] h1 h4 show ?thesis
    by (simp add: example_defs query_part_def)
qed

text \<open>
  Claim C1, as the code has it.  When the upstream answers 401 to the forwarded request,
  the relay makes one login attempt for that answer.  If the login fails it answers 503
  and sends nothing more.  If the login succeeds the relay starts over from the state the
  login left, so a further 401 is treated in the same way: nothing counts the rounds.  A
  503 is only ever answered right after a failed login.
\<close>

theorem proxy_unauthorized:
  assumes "ensure_session up st = Inr st1"
    and "upstream_api up (events st1 @ [ApiRequest (req_method req)
           (forwarded_url up req endpoint) (sessionCookie st1)]) = Replied response"
    and "r_status response = 401"
  shows "\<exists>ok3 st3 line.
           authenticateTraccar (upstream_auth up)
             (emit (Log ''Session expired, re-authenticating...'')
               (emit (ApiRequest (req_method req) (forwarded_url up req endpoint)
                  (sessionCookie st1)) st1)) = (ok3, st3)
         \<and> events st3 = events st1 @
             [ApiRequest (req_method req) (forwarded_url up req endpoint) (sessionCookie st1),
              Log ''Session expired, re-authenticating...'',
              Log ''Authenticating with Traccar...'', AuthRequest, Log line]
         \<and> proxyToTraccar up req endpoint st =
             (if ok3 then proxyToTraccar up req endpoint st3
              else Some (\<lparr>res_status = 503,
                          res_body = ErrorBody ''Unable to reconnect to Traccar''\<rparr>, st3))
         \<and> (\<forall>y. proxyToTraccar up req endpoint st = Some y \<and> res_status (fst y) = 503
                \<longrightarrow> auth_error_line (last (events (snd y))))"
proof -
  let ?st2 = "emit (ApiRequest (req_method req) (forwarded_url up req endpoint)
                  (sessionCookie st1)) st1"
  let ?st2' = "emit (Log ''Session expired, re-authenticating...'') ?st2"
  obtain ok3 st3 where auth: "authenticateTraccar (upstream_auth up) ?st2' = (ok3, st3)"
    by fastforce
  with authenticate_events [of "upstream_auth up" ?st2']
  obtain line where "events st3 = events st1 @
             [ApiRequest (req_method req) (forwarded_url up req endpoint) (sessionCookie st1),
              Log ''Session expired, re-authenticating...'',
              Log ''Authenticating with Traccar...'', AuthRequest, Log line]"
    by (auto simp: events_emit)
  moreover have "proxyToTraccar up req endpoint st =
             (if ok3 then proxyToTraccar up req endpoint st3
              else Some (\<lparr>res_status = 503,
                          res_body = ErrorBody ''Unable to reconnect to Traccar''\<rparr>, st3))"
    using assms auth
    by (subst proxyToTraccar.simps)
       (simp add: Let_def events_emit forwarded_url_def)
  moreover have "\<forall>y. proxyToTraccar up req endpoint st = Some y \<and> res_status (fst y) = 503
                \<longrightarrow> auth_error_line (last (events (snd y)))"
    using proxy_503 [of up req endpoint st] by blast
  ultimately show ?thesis using auth by blast
qed

theorem proxy_unauthorized_witness:
  "ensure_session (traccar login_refused (expired_until 1)) logged_in = Inr logged_in
   \<and> proxyToTraccar (traccar login_refused (expired_until 1)) get_devices ''/api/devices''
       logged_in =
       Some (\<lparr>res_status = 503, res_body = ErrorBody ''Unable to reconnect to Traccar''\<rparr>,
             \<lparr>sessionCookie = Some ''JSESSIONID=node0old'',
                events = [ApiRequest ''GET'' ''https://traccar.example/api/devices''
                            (Some ''JSESSIONID=node0old''),
                          Log ''Session expired, re-authenticating...'',
                          Log ''Authenticating with Traccar...'', AuthRequest,
                          Log ''Authentication error: Authentication failed: 401'']\<rparr>)"
proof -
  let ?up = "traccar login_refused (expired_until 1)"
  let ?response = "\<lparr>r_status = 401, r_content_type = None, r_text = [],
                     r_json = Inl ''Unexpected end of JSON input''\<rparr>"
  have h1: "ensure_session ?up logged_in = Inr logged_in"
    by (simp add: ensure_session_def logged_in_def falsy_def)
  have h2: "upstream_api ?up (events logged_in @ [ApiRequest (req_method get_devices)
         (forwarded_url ?up get_devices ''/api/devices'') (sessionCookie logged_in)]) =
       Replied ?response"
    by (simp add: example_defs)
  have h3: "r_status ?response = 401" by simp
  from proxy_unauthorized [OF h1 h2 h3] h1 show ?thesis
    by (auto simp: example_defs authenticateTraccar_def emit_def ok_def Let_def query_part_def
          digit_def)
qed

text \<open>
  Claim C1 as stated fails: with a session in place and an upstream that answers 401
  until two logins have been made, the second 401 (the answer to the retry) is not turned
  into a 503; the relay logs in a second time, calls a third time and answers 200.
\<close>

theorem proxy_retries_twice_counterexample:
  "map_option
     (\<lambda>y. (res_status (fst y), auth_requests (events (snd y)), api_requests (events (snd y))))
     (proxyToTraccar (traccar login_accepted (expired_until 2)) get_devices ''/api/devices''
        logged_in)
   = Some (200, 2, 3)"
  by (simp add: proxyToTraccar.simps example_defs relay_defs)


section \<open>Properties of the route history endpoint\<close>

text \<open>\<open>parseInt\<close> accepts every integer.\<close>

lemma digit_props:
  assumes "is_decimal_digit c"
  shows "isRadixDigit 10 c" "\<not> isStrWhiteSpaceChar c" "c \<noteq> CHR ''-''" "c \<noteq> CHR ''+''"
    "c \<noteq> CHR ''x''" "c \<noteq> CHR ''X''"
  using assms
  by (auto simp: is_decimal_digit_def isRadixDigit_def digitValue_def isStrWhiteSpaceChar_def
        Let_def)

lemma parseInt_digits:
  assumes "ds \<noteq> []" "list_all is_decimal_digit ds"
  shows "takeWhile (isRadixDigit 10) ds \<noteq> []"
    and "\<not> startsWith ds ''0x''" and "\<not> startsWith ds ''0X''"
    and "\<not> startsWith ds ''-''" and "\<not> startsWith ds ''+''"
    and "dropWhile isStrWhiteSpaceChar ds = ds"
proof -
  from assms obtain d rest where ds: "ds = d # rest" "is_decimal_digit d"
    "list_all is_decimal_digit rest"
    by (cases ds) auto
  show "takeWhile (isRadixDigit 10) ds \<noteq> []"
    using ds digit_props(1) [of d] by simp
  show "\<not> startsWith ds ''0x''" "\<not> startsWith ds ''0X''"
    using ds by (cases rest; auto dest: digit_props)+
  show "\<not> startsWith ds ''-''" "\<not> startsWith ds ''+''"
    using ds by (auto dest: digit_props)
  show "dropWhile isStrWhiteSpaceChar ds = ds"
    using ds digit_props(2) [of d] by simp
qed

lemma parseInt_integer_string:
  assumes "is_integer_string s"
  shows "parseInt s \<noteq> None"
proof (cases "startsWith s ''-'' \<or> startsWith s ''+''")
  case False
  with assms have ds: "s \<noteq> []" "list_all is_decimal_digit s"
    by (simp_all add: is_integer_string_def)
  from parseInt_digits [OF ds] False show ?thesis
    by (simp add: parseInt_def Let_def)
next
  case True
  then obtain c ds where s: "s = c # ds" "c = CHR ''-'' \<or> c = CHR ''+''"
    by (cases s) auto
  with assms True have ds: "ds \<noteq> []" "list_all is_decimal_digit ds"
    by (auto simp: is_integer_string_def)
  have "\<not> isStrWhiteSpaceChar c" using s(2) by (auto simp: isStrWhiteSpaceChar_def)
  with parseInt_digits [OF ds] s show ?thesis
    by (auto simp: parseInt_def Let_def)
qed

text \<open>\<open>parseInt\<close> refuses every string with no leading digit.\<close>

lemma radix_10_digit: "isRadixDigit 10 c \<Longrightarrow> is_decimal_digit c"
  by (auto simp: isRadixDigit_def digitValue_def is_decimal_digit_def Let_def
           split: if_splits)

lemma parseInt_no_leading_digit:
  assumes "no_leading_digit s"
  shows "parseInt s = None"
proof -
  define S where "S = dropWhile isStrWhiteSpaceChar s"
  define S1 where
    "S1 = (if S \<noteq> [] \<and> (startsWith S ''+'' \<or> startsWith S ''-'') then tl S else S)"
  have head: "case S1 of [] \<Rightarrow> True | c # cs \<Rightarrow> \<not> is_decimal_digit c"
    using assms unfolding no_leading_digit_def S1_def S_def Let_def by assumption
  have zero: "is_decimal_digit CHR ''0''" by (simp add: is_decimal_digit_def)
  from head zero have hex: "\<not> startsWith S1 ''0x''" "\<not> startsWith S1 ''0X''"
    by (cases S1; auto)+
  from head radix_10_digit have "takeWhile (isRadixDigit 10) S1 = []"
    by (cases S1) auto
  with hex show ?thesis
    unfolding S1_def S_def by (simp add: parseInt_def Let_def)
qed

text \<open>
  Where the device id is an integer or has no leading digit, the handler is the
  first-failure evaluation of the six checks.
\<close>

lemma reports_route_refines:
  assumes "is_integer_string (text_of (q_deviceId q))
             \<or> no_leading_digit (text_of (q_deviceId q))"
  shows "reports_route Date_parse now up req q st =
     (case first_failure (spec_route_checks Date_parse now q) of
        Some msg \<Rightarrow> Some (bad_request msg, st)
      | None \<Rightarrow> proxyToTraccar up req ''/api/reports/route'' st)"
proof -
  from assms parseInt_integer_string [of "text_of (q_deviceId q)"]
    parseInt_no_leading_digit [of "text_of (q_deviceId q)"]
  have "is_integer_string (text_of (q_deviceId q))
          = (parseInt (text_of (q_deviceId q)) \<noteq> None)"
    by auto
  then show ?thesis
    by (simp add: reports_route_def spec_route_checks_def Let_def split: option.split)
qed

lemma reports_route_order:
  assumes "Date_parse (text_of (q_from q)) = Some f" "Date_parse (text_of (q_to q)) = Some t"
    "t \<le> f"
  shows "\<exists>msg. reports_route Date_parse now up req q st = Some (bad_request msg, st)"
  using assms by (auto simp: reports_route_def Let_def)

lemma all_checks_integer:
  "first_failure (spec_route_checks Date_parse now q) = None \<Longrightarrow>
     is_integer_string (text_of (q_deviceId q))"
  by (simp add: spec_route_checks_def Let_def split: if_splits)

lemma ensure_session_refused:
  assumes "ensure_session up st = Inl (r, st')"
  shows "proxyToTraccar up req endpoint st = Some (r, st')"
    and "res_status r = 503" and "api_requests (events st') = api_requests (events st)"
proof -
  from assms show "proxyToTraccar up req endpoint st = Some (r, st')"
    by (subst proxyToTraccar.simps) simp
  from ensure_session_Inl [OF assms] show "res_status r = 503" by simp
  from ensure_session_Inl [OF assms] authenticate_events [of "upstream_auth up" st]
  show "api_requests (events st') = api_requests (events st)"
    by (auto simp: api_requests_def is_api_request_def)
qed

text \<open>
  Claim C2, as the code has it by design.  For a device id that is an integer, or that
  has no leading digit after white space and a sign, the handler answers what the six checks of the specification,
  applied in their order, prescribe: the 400 response of the first check that fails, with
  its message and with the server state and trace as they were, so that nothing was sent
  upstream; and exactly when no check fails it hands the request to the relay.  A query
  whose end is not after its start is answered 400 with the state unchanged, whatever its
  device id.  When no check fails, the forwarded call still depends on the session: if the
  relay has no session and its login fails, the answer is 503 and no forwarded call is
  made; if it has or obtains a session, it sends the forwarded call and, unless the answer
  to that is a 401, answers without sending anything more.
\<close>

theorem reports_route_validation:
  "((is_integer_string (text_of (q_deviceId q)) \<or> no_leading_digit (text_of (q_deviceId q)))
      \<longrightarrow> reports_route Date_parse now up req q st =
            (case first_failure (spec_route_checks Date_parse now q) of
               Some msg \<Rightarrow> Some (bad_request msg, st)
             | None \<Rightarrow> proxyToTraccar up req ''/api/reports/route'' st))
   \<and> (\<forall>f t. Date_parse (text_of (q_from q)) = Some f \<and>
             Date_parse (text_of (q_to q)) = Some t \<and> t \<le> f \<longrightarrow>
          (\<exists>msg. reports_route Date_parse now up req q st = Some (bad_request msg, st)))
   \<and> (first_failure (spec_route_checks Date_parse now q) = None \<longrightarrow>
        (\<forall>r st'. ensure_session up st = Inl (r, st') \<longrightarrow>
           reports_route Date_parse now up req q st = Some (r, st') \<and> res_status r = 503
           \<and> api_requests (events st') = api_requests (events st))
        \<and> (\<forall>st1. ensure_session up st = Inr st1 \<and>
              (case upstream_api up (events st1 @ [ApiRequest (req_method req)
                      (forwarded_url up req ''/api/reports/route'') (sessionCookie st1)]) of
                 Threw msg \<Rightarrow> True
               | Replied response \<Rightarrow> r_status response \<noteq> 401) \<longrightarrow>
              (\<exists>y rest. reports_route Date_parse now up req q st = Some y
                 \<and> events (snd y) = events st1 @
                      ApiRequest (req_method req) (forwarded_url up req ''/api/reports/route'')
                        (sessionCookie st1) # rest
                 \<and> (\<forall>e\<in>set rest. \<not> is_request e))))"
proof -
  have refines: "(is_integer_string (text_of (q_deviceId q))
                    \<or> no_leading_digit (text_of (q_deviceId q)))
      \<longrightarrow> reports_route Date_parse now up req q st =
            (case first_failure (spec_route_checks Date_parse now q) of
               Some msg \<Rightarrow> Some (bad_request msg, st)
             | None \<Rightarrow> proxyToTraccar up req ''/api/reports/route'' st)"
    by (rule impI) (rule reports_route_refines)
  have order: "\<forall>f t. Date_parse (text_of (q_from q)) = Some f \<and>
             Date_parse (text_of (q_to q)) = Some t \<and> t \<le> f \<longrightarrow>
          (\<exists>msg. reports_route Date_parse now up req q st = Some (bad_request msg, st))"
    using reports_route_order [where Date_parse = Date_parse and q = q and now = now
        and up = up and req = req and st = st]
    by blast
  have relay: "first_failure (spec_route_checks Date_parse now q) = None \<longrightarrow>
        (\<forall>r st'. ensure_session up st = Inl (r, st') \<longrightarrow>
           reports_route Date_parse now up req q st = Some (r, st') \<and> res_status r = 503
           \<and> api_requests (events st') = api_requests (events st))
        \<and> (\<forall>st1. ensure_session up st = Inr st1 \<and>
              (case upstream_api up (events st1 @ [ApiRequest (req_method req)
                      (forwarded_url up req ''/api/reports/route'') (sessionCookie st1)]) of
                 Threw msg \<Rightarrow> True
               | Replied response \<Rightarrow> r_status response \<noteq> 401) \<longrightarrow>
              (\<exists>y rest. reports_route Date_parse now up req q st = Some y
                 \<and> events (snd y) = events st1 @
                      ApiRequest (req_method req) (forwarded_url up req ''/api/reports/route'')
                        (sessionCookie st1) # rest
                 \<and> (\<forall>e\<in>set rest. \<not> is_request e)))"
  proof
    assume pass: "first_failure (spec_route_checks Date_parse now q) = None"
    from all_checks_integer [OF pass]
    have "reports_route Date_parse now up req q st =
            (case first_failure (spec_route_checks Date_parse now q) of
               Some msg \<Rightarrow> Some (bad_request msg, st)
             | None \<Rightarrow> proxyToTraccar up req ''/api/reports/route'' st)"
      by (intro reports_route_refines) simp
    with pass have handed:
      "reports_route Date_parse now up req q st = proxyToTraccar up req ''/api/reports/route'' st"
      by simp
    show "(\<forall>r st'. ensure_session up st = Inl (r, st') \<longrightarrow>
           reports_route Date_parse now up req q st = Some (r, st') \<and> res_status r = 503
           \<and> api_requests (events st') = api_requests (events st))
        \<and> (\<forall>st1. ensure_session up st = Inr st1 \<and>
              (case upstream_api up (events st1 @ [ApiRequest (req_method req)
                      (forwarded_url up req ''/api/reports/route'') (sessionCookie st1)]) of
                 Threw msg \<Rightarrow> True
               | Replied response \<Rightarrow> r_status response \<noteq> 401) \<longrightarrow>
              (\<exists>y rest. reports_route Date_parse now up req q st = Some y
                 \<and> events (snd y) = events st1 @
                      ApiRequest (req_method req) (forwarded_url up req ''/api/reports/route'')
                        (sessionCookie st1) # rest
                 \<and> (\<forall>e\<in>set rest. \<not> is_request e)))"
      unfolding handed
      using ensure_session_refused(1) [where up = up and st = st and req = req
          and endpoint = "''/api/reports/route''"]
        ensure_session_refused(2,3) [where up = up and st = st]
        proxy_forwards [where up = up and st = st and req = req
          and endpoint = "''/api/reports/route''"]
      by blast
  qed
  show ?thesis
    by (rule conjI, rule refines, rule conjI, rule order, rule relay)
qed

theorem reports_route_validation_witness:
  "reports_route iso_dates 1717200000000 (traccar login_accepted (expired_until 0))
     (get_route ''5'' ''2024-01-08T00:00:00Z'' ''2024-01-01T00:00:00Z'')
     (route_params ''5'' ''2024-01-08T00:00:00Z'' ''2024-01-01T00:00:00Z'') logged_in
   = Some (\<lparr>res_status = 400, res_body = ErrorBody ''Start date must be before end date''\<rparr>,
           logged_in)
   \<and> reports_route iso_dates 1717200000000 (traccar login_accepted (expired_until 0))
     (get_route ''5'' ''2024-01-01T00:00:00Z'' ''2024-01-01T08:00:00Z'')
     (route_params ''5'' ''2024-01-01T00:00:00Z'' ''2024-01-01T08:00:00Z'') logged_in
   = Some (\<lparr>res_status = 200, res_body = Data ''[]''\<rparr>,
           \<lparr>sessionCookie = Some ''JSESSIONID=node0old'',
              events = [ApiRequest ''GET''
                ''https://traccar.example/api/reports/route?deviceId=5&from=2024-01-01T00:00:00Z&to=2024-01-01T08:00:00Z''
                (Some ''JSESSIONID=node0old'')]\<rparr>)"
proof -
  let ?up = "traccar login_accepted (expired_until 0)"
  let ?late = "route_params ''5'' ''2024-01-08T00:00:00Z'' ''2024-01-01T00:00:00Z''"
  let ?good = "route_params ''5'' ''2024-01-01T00:00:00Z'' ''2024-01-01T08:00:00Z''"
  have five: "is_integer_string ''5''"
    by (simp add: is_integer_string_def is_decimal_digit_def)
  have h1: "is_integer_string (text_of (q_deviceId ?late))
              \<or> no_leading_digit (text_of (q_deviceId ?late))"
    using five by (simp add: route_params_def text_of_def)
  have h2: "is_integer_string (text_of (q_deviceId ?good))
              \<or> no_leading_digit (text_of (q_deviceId ?good))"
    using five by (simp add: route_params_def text_of_def)
  have c1: "first_failure (spec_route_checks iso_dates 1717200000000 ?late)
              = Some ''Start date must be before end date''"
    using five
    by (simp add: spec_route_checks_def route_params_def iso_dates_def text_of_def falsy_def)
  have c2: "first_failure (spec_route_checks iso_dates 1717200000000 ?good) = None"
    using five
    by (simp add: spec_route_checks_def route_params_def iso_dates_def text_of_def falsy_def)
  from reports_route_validation [where q = ?late and Date_parse = iso_dates
          and now = 1717200000000 and up = ?up and st = logged_in
          and req = "get_route ''5'' ''2024-01-08T00:00:00Z'' ''2024-01-01T00:00:00Z''"] h1
  have "reports_route iso_dates 1717200000000 ?up
          (get_route ''5'' ''2024-01-08T00:00:00Z'' ''2024-01-01T00:00:00Z'') ?late logged_in =
            (case first_failure (spec_route_checks iso_dates 1717200000000 ?late) of
               Some msg \<Rightarrow> Some (bad_request msg, logged_in)
             | None \<Rightarrow> proxyToTraccar ?up
                 (get_route ''5'' ''2024-01-08T00:00:00Z'' ''2024-01-01T00:00:00Z'')
                 ''/api/reports/route'' logged_in)"
    by blast
  then have a: "reports_route iso_dates 1717200000000 ?up
          (get_route ''5'' ''2024-01-08T00:00:00Z'' ''2024-01-01T00:00:00Z'') ?late logged_in =
      Some (\<lparr>res_status = 400, res_body = ErrorBody ''Start date must be before end date''\<rparr>,
            logged_in)"
    by (simp add: c1 bad_request_def)
  from reports_route_validation [where q = ?good and Date_parse = iso_dates
          and now = 1717200000000 and up = ?up and st = logged_in
          and req = "get_route ''5'' ''2024-01-01T00:00:00Z'' ''2024-01-01T08:00:00Z''"] h2
  have "reports_route iso_dates 1717200000000 ?up
          (get_route ''5'' ''2024-01-01T00:00:00Z'' ''2024-01-01T08:00:00Z'') ?good logged_in =
            (case first_failure (spec_route_checks iso_dates 1717200000000 ?good) of
               Some msg \<Rightarrow> Some (bad_request msg, logged_in)
             | None \<Rightarrow> proxyToTraccar ?up
                 (get_route ''5'' ''2024-01-01T00:00:00Z'' ''2024-01-01T08:00:00Z'')
                 ''/api/reports/route'' logged_in)"
    by blast
  then have b: "reports_route iso_dates 1717200000000 ?up
          (get_route ''5'' ''2024-01-01T00:00:00Z'' ''2024-01-01T08:00:00Z'') ?good logged_in =
      Some (\<lparr>res_status = 200, res_body = Data ''[]''\<rparr>,
           \<lparr>sessionCookie = Some ''JSESSIONID=node0old'',
              events = [ApiRequest ''GET''
                ''https://traccar.example/api/reports/route?deviceId=5&from=2024-01-01T00:00:00Z&to=2024-01-01T08:00:00Z''
                (Some ''JSESSIONID=node0old'')]\<rparr>)"
    by (simp add: c2 get_route_def proxyToTraccar.simps example_defs relay_defs)
  from a b show ?thesis by (intro conjI)
qed

text \<open>
  Claim C2 as stated fails where it ties the upstream call to the six checks alone: a
  query that passes all six, sent while the server has no session and the upstream refuses
  the login, is answered 503 and no call is forwarded.
\<close>

theorem reports_route_login_refused_counterexample:
  "first_failure (spec_route_checks iso_dates 1717200000000
      (route_params ''5'' ''2024-01-01T00:00:00Z'' ''2024-01-01T08:00:00Z'')) = None
   \<and> map_option (\<lambda>y. (res_status (fst y), api_requests (events (snd y))))
        (reports_route iso_dates 1717200000000 (traccar login_refused (expired_until 0))
           (get_route ''5'' ''2024-01-01T00:00:00Z'' ''2024-01-01T08:00:00Z'')
           (route_params ''5'' ''2024-01-01T00:00:00Z'' ''2024-01-01T08:00:00Z'') started)
      = Some (503, 0)"
  by (simp add: spec_route_checks_def is_integer_string_def is_decimal_digit_def
        reports_route_def route_params_def get_route_def iso_dates_def text_of_def
        parseInt_def isStrWhiteSpaceChar_def isRadixDigit_def digitValue_def
        addDigit_def proxyToTraccar.simps example_defs relay_defs)

text \<open>
  Claim C3 at the device id \<open>12abc\<close>: \<open>parseInt\<close> reads the leading digits and
  returns 12, so the check passes and the request is forwarded with the device id as it
  was sent.
\<close>

theorem reports_route_accepts_12abc:
  "parseInt ''12abc'' = Some 12
   \<and> reports_route iso_dates 1717200000000 (traccar login_accepted (expired_until 0))
        (get_route ''12abc'' ''2024-01-01T00:00:00Z'' ''2024-01-01T08:00:00Z'')
        (route_params ''12abc'' ''2024-01-01T00:00:00Z'' ''2024-01-01T08:00:00Z'') logged_in
      = Some (\<lparr>res_status = 200, res_body = Data ''[]''\<rparr>,
           \<lparr>sessionCookie = Some ''JSESSIONID=node0old'',
              events = [ApiRequest ''GET''
                ''https://traccar.example/api/reports/route?deviceId=12abc&from=2024-01-01T00:00:00Z&to=2024-01-01T08:00:00Z''
                (Some ''JSESSIONID=node0old'')]\<rparr>)"
  by (simp add: reports_route_def route_params_def get_route_def iso_dates_def text_of_def
        parseInt_def isStrWhiteSpaceChar_def isRadixDigit_def digitValue_def
        addDigit_def proxyToTraccar.simps example_defs relay_defs)


section \<open>Properties of the UTF-8 codec\<close>

text \<open>One step of the decoder for each length of a well-formed sequence.\<close>

lemma decode_1:
  assumes "unat b1 \<le> 0x7F"
  shows "toString (b1 # rest) = unat b1 # toString rest"
  using assms by (simp add: toString_def Let_def)

lemma decode_2:
  assumes "0xC2 \<le> unat b1" "unat b1 \<le> 0xDF" "unat b1 mod 32 = h"
    and "0x80 \<le> unat b2" "unat b2 \<le> 0xBF" "unat b2 mod 64 = l"
  shows "toString (b1 # b2 # rest) = (h * 64 + l) # toString rest"
  using assms by (simp add: toString_def Let_def)

lemma decode_3:
  assumes "0xE0 \<le> unat b1" "unat b1 \<le> 0xEF" "unat b1 mod 16 = h"
    and "(if unat b1 = 0xE0 then 0xA0 else 0x80) \<le> unat b2"
        "unat b2 \<le> (if unat b1 = 0xED then 0x9F else 0xBF)" "unat b2 mod 64 = m"
    and "0x80 \<le> unat b3" "unat b3 \<le> 0xBF" "unat b3 mod 64 = l"
  shows "toString (b1 # b2 # b3 # rest) = ((h * 64 + m) * 64 + l) # toString rest"
  using assms by (simp add: toString_def Let_def)

lemma decode_4:
  assumes "0xF0 \<le> unat b1" "unat b1 \<le> 0xF4" "unat b1 mod 8 = h"
    and "(if unat b1 = 0xF0 then 0x90 else 0x80) \<le> unat b2"
        "unat b2 \<le> (if unat b1 = 0xF4 then 0x8F else 0xBF)" "unat b2 mod 64 = m"
    and "0x80 \<le> unat b3" "unat b3 \<le> 0xBF" "unat b3 mod 64 = k"
    and "0x80 \<le> unat b4" "unat b4 \<le> 0xBF" "unat b4 mod 64 = l"
  shows "toString (b1 # b2 # b3 # b4 # rest) =
           (((h * 64 + m) * 64 + k) * 64 + l) # toString rest"
  using assms by (simp add: toString_def Let_def)

text \<open>The bytes the encoder writes, read back as numbers.\<close>

lemma mod_offset: "h < k \<Longrightarrow> (q * k + h) mod k = (h::nat)"
  by simp

lemma unat_byte: "n < 256 \<Longrightarrow> unat (of_nat n :: u8) = n"
  by (simp add: unat_of_nat)

lemma lead_byte:
  assumes "h < k" and "q * k + k \<le> 256"
  shows "unat (of_nat (q * k + h) :: u8) = q * k + h"
    and "unat (of_nat (q * k + h) :: u8) mod k = h"
proof -
  from assms have "q * k + h < 256" by linarith
  then show "unat (of_nat (q * k + h) :: u8) = q * k + h" by (rule unat_byte)
  with mod_offset [OF assms(1), of q]
  show "unat (of_nat (q * k + h) :: u8) mod k = h" by (simp only:)
qed

lemma continuation_byte:
  assumes "l < 64"
  shows "unat (of_nat (0x80 + l) :: u8) = 0x80 + l"
    and "unat (of_nat (0x80 + l) :: u8) mod 64 = l"
proof -
  have e: "(0x80::nat) = 2 * 64" by simp
  from lead_byte [OF assms, of 2] show "unat (of_nat (0x80 + l) :: u8) = 0x80 + l"
    unfolding e by simp
  from lead_byte [OF assms, of 2] show "unat (of_nat (0x80 + l) :: u8) mod 64 = l"
    unfolding e by simp
qed

lemma lead_2:
  assumes "x < 32"
  shows "unat (of_nat (0xC0 + x) :: u8) = 0xC0 + x"
    and "unat (of_nat (0xC0 + x) :: u8) mod 32 = x"
proof -
  have e: "(0xC0::nat) = 6 * 32" by simp
  from lead_byte [OF assms, of 6] show "unat (of_nat (0xC0 + x) :: u8) = 0xC0 + x"
    unfolding e by simp
  from lead_byte [OF assms, of 6] show "unat (of_nat (0xC0 + x) :: u8) mod 32 = x"
    unfolding e by simp
qed

lemma lead_3:
  assumes "y < 16"
  shows "unat (of_nat (0xE0 + y) :: u8) = 0xE0 + y"
    and "unat (of_nat (0xE0 + y) :: u8) mod 16 = y"
proof -
  have e: "(0xE0::nat) = 14 * 16" by simp
  from lead_byte [OF assms, of 14] show "unat (of_nat (0xE0 + y) :: u8) = 0xE0 + y"
    unfolding e by simp
  from lead_byte [OF assms, of 14] show "unat (of_nat (0xE0 + y) :: u8) mod 16 = y"
    unfolding e by simp
qed

lemma lead_4:
  assumes "z < 8"
  shows "unat (of_nat (0xF0 + z) :: u8) = 0xF0 + z"
    and "unat (of_nat (0xF0 + z) :: u8) mod 8 = z"
proof -
  have e: "(0xF0::nat) = 30 * 8" by simp
  from lead_byte [OF assms, of 30] show "unat (of_nat (0xF0 + z) :: u8) = 0xF0 + z"
    unfolding e by simp
  from lead_byte [OF assms, of 30] show "unat (of_nat (0xF0 + z) :: u8) mod 8 = z"
    unfolding e by simp
qed

text \<open>Decoding what the encoder wrote for a scalar value gives the scalar value back.\<close>

lemma toString_encode_cp:
  assumes "scalar_value cp"
  shows "toString (utf8_encode_cp cp @ rest) = cp # toString rest"
proof -
  define l where "l = cp mod 64"
  define x where "x = cp div 64"
  define m where "m = x mod 64"
  define y where "y = x div 64"
  define n where "n = y mod 64"
  define z where "z = y div 64"
  define bl :: u8 where "bl = of_nat (0x80 + l)"
  define bm :: u8 where "bm = of_nat (0x80 + m)"
  define bn :: u8 where "bn = of_nat (0x80 + n)"
  define b2 :: u8 where "b2 = of_nat (0xC0 + x)"
  define b3 :: u8 where "b3 = of_nat (0xE0 + y)"
  define b4 :: u8 where "b4 = of_nat (0xF0 + z)"
  have bounds: "l < 64" "m < 64" "n < 64"
    by (simp_all add: l_def m_def n_def)
  have cp: "x * 64 + l = cp" by (simp add: x_def l_def)
  have x: "y * 64 + m = x" by (simp add: y_def m_def)
  have y: "z * 64 + n = y" by (simp add: z_def n_def)
  have d1: "cp div 4096 = y"
    using div_mult2_eq [of cp 64 64] by (simp add: x_def y_def)
  have d2: "cp div 262144 = z"
    using div_mult2_eq [of cp 4096 64] d1 by (simp add: z_def)
  have enc: "utf8_encode_cp cp =
     (if cp < 0x80 then [of_nat cp]
      else if cp < 0x800 then [b2, bl]
      else if 0xD800 \<le> cp \<and> cp \<le> 0xDFFF then [0xEF, 0xBF, 0xBD]
      else if cp < 0x10000 then [b3, bm, bl]
      else [b4, bn, bm, bl])"
    unfolding utf8_encode_cp_def d1 d2 x_def [symmetric] l_def [symmetric]
      m_def [symmetric] n_def [symmetric] bl_def bm_def bn_def b2_def b3_def b4_def
    by (rule refl)
  note cl = continuation_byte [OF bounds(1), folded bl_def]
  note cm = continuation_byte [OF bounds(2), folded bm_def]
  note cn = continuation_byte [OF bounds(3), folded bn_def]
  consider (one) "cp < 0x80" | (two) "0x80 \<le> cp" "cp < 0x800"
    | (three) "0x800 \<le> cp" "cp < 0x10000" | (four) "0x10000 \<le> cp"
    by linarith
  then show ?thesis
  proof cases
    case one
    then have "unat (of_nat cp :: u8) = cp" by (simp add: unat_byte)
    with one decode_1 [of "of_nat cp" rest] show ?thesis by (simp add: enc)
  next
    case two
    from two cp bounds have r: "2 \<le> x" "x < 32" by linarith+
    note lead = lead_2 [OF r(2), folded b2_def]
    have a: "0xC2 \<le> unat b2" "unat b2 \<le> 0xDF"
      using r by (simp_all add: lead(1))
    have c: "0x80 \<le> unat bl" "unat bl \<le> 0xBF"
      using bounds by (simp_all add: cl(1))
    from decode_2 [OF a lead(2) c cl(2)]
    have "toString (b2 # bl # rest) = (x * 64 + l) # toString rest" .
    with two cp show ?thesis by (simp add: enc)
  next
    case three
    with assms have ns: "cp < 0xD800 \<or> 0xE000 \<le> cp" by (simp add: scalar_value_def)
    from three cp x bounds have r: "y < 16" "y = 0 \<longrightarrow> 32 \<le> m" by linarith+
    from ns three cp x bounds have r13: "y = 13 \<longrightarrow> m < 32" by linarith
    note lead = lead_3 [OF r(1), folded b3_def]
    have a: "0xE0 \<le> unat b3" "unat b3 \<le> 0xEF"
      using r by (simp_all add: lead(1))
    have b: "(if unat b3 = 0xE0 then 0xA0 else 0x80) \<le> unat bm"
      "unat bm \<le> (if unat b3 = 0xED then 0x9F else 0xBF)"
      using r r13 bounds by (auto simp: lead(1) cm(1))
    have c: "0x80 \<le> unat bl" "unat bl \<le> 0xBF"
      using bounds by (simp_all add: cl(1))
    from decode_3 [OF a lead(2) b cm(2) c cl(2)]
    have "toString (b3 # bm # bl # rest) = ((y * 64 + m) * 64 + l) # toString rest" .
    moreover from three ns have "\<not> (0xD800 \<le> cp \<and> cp \<le> 0xDFFF)" by linarith
    ultimately show ?thesis using three cp x by (auto simp: enc)
  next
    case four
    with assms have top: "cp \<le> 0x10FFFF" by (simp add: scalar_value_def)
    from four top cp x y bounds have r: "z \<le> 4" "z = 0 \<longrightarrow> 16 \<le> n" "z = 4 \<longrightarrow> n < 16"
      by linarith+
    then have "z < 8" by simp
    note lead = lead_4 [OF this, folded b4_def]
    have a: "0xF0 \<le> unat b4" "unat b4 \<le> 0xF4"
      using r by (simp_all add: lead(1))
    have b: "(if unat b4 = 0xF0 then 0x90 else 0x80) \<le> unat bn"
      "unat bn \<le> (if unat b4 = 0xF4 then 0x8F else 0xBF)"
      using r bounds by (auto simp: lead(1) cn(1))
    have c: "0x80 \<le> unat bm" "unat bm \<le> 0xBF"
      using bounds by (simp_all add: cm(1))
    have d: "0x80 \<le> unat bl" "unat bl \<le> 0xBF"
      using bounds by (simp_all add: cl(1))
    from decode_4 [OF a lead(2) b cn(2) c cm(2) d cl(2)]
    have "toString (b4 # bn # bm # bl # rest) =
            (((z * 64 + n) * 64 + m) * 64 + l) # toString rest" .
    moreover from four have "\<not> cp < 0x80" "\<not> cp < 0x800" "\<not> cp < 0x10000"
      "\<not> (0xD800 \<le> cp \<and> cp \<le> 0xDFFF)" by linarith+
    ultimately show ?thesis using cp x y by (auto simp: enc)
  qed
qed

lemma toString_utf8_encode:
  "list_all scalar_value str \<Longrightarrow> toString (utf8_encode str @ rest) = str @ toString rest"
  by (induction str) (simp_all add: utf8_encode_def toString_encode_cp)

section \<open>Properties of the bridge\<close>

lemma toString_utf8_encode_all:
  "list_all scalar_value str \<Longrightarrow> toString (utf8_encode str) = str"
  using toString_utf8_encode [of str "[]"] by (simp add: toString_def)

text \<open>
  Claim C8, as the code has it.  While the browser socket is open, an upstream message
  whose payload is well-formed UTF-8, that is the encoding of a string of scalar values as
  every text frame is, makes the bridge send exactly one text message with the very same
  bytes and change nothing else; the payload is decoded by \<open>toString\<close> and encoded
  again by \<open>send\<close> on the way.  A message that arrives while the browser socket is not
  open is dropped.
\<close>

theorem bridge_forwards_utf8:
  assumes "list_all scalar_value str"
  shows "(readyState (clientWs b) = OPEN \<longrightarrow>
            deliver TraccarWs (EvMessage (utf8_encode str)) b =
              Some (b\<lparr>clientWs := (clientWs b)
                     \<lparr>calls := calls (clientWs b) @ [Send (utf8_encode str)]\<rparr>\<rparr>))
         \<and> (readyState (clientWs b) \<noteq> OPEN \<longrightarrow>
              deliver TraccarWs (EvMessage data) b = Some b)"
  using toString_utf8_encode_all [OF assms]
  by (simp add: deliver_def arrive_def arrived_def ws_send_def invoke_def)

theorem bridge_forwards_utf8_witness:
  "list_all scalar_value [0x7B, 0x20AC, 0x1F600]
   \<and> readyState (clientWs bridging) = OPEN
   \<and> utf8_encode [0x7B, 0x20AC, 0x1F600] = [0x7B, 0xE2, 0x82, 0xAC, 0xF0, 0x9F, 0x98, 0x80]
   \<and> map_option (calls \<circ> clientWs)
         (deliver TraccarWs (EvMessage [0x7B, 0xE2, 0x82, 0xAC, 0xF0, 0x9F, 0x98, 0x80]) bridging)
       = Some [Send [0x7B, 0xE2, 0x82, 0xAC, 0xF0, 0x9F, 0x98, 0x80]]"
proof -
  have h: "list_all scalar_value [0x7B, 0x20AC, 0x1F600]"
    by (simp add: scalar_value_def)
  have e: "utf8_encode [0x7B, 0x20AC, 0x1F600] = [0x7B, 0xE2, 0x82, 0xAC, 0xF0, 0x9F, 0x98, 0x80]"
    by (simp add: utf8_encode_def utf8_encode_cp_def)
  have o: "readyState (clientWs bridging) = OPEN"
    by (simp add: bridging_def accepted_def)
  from bridge_forwards_utf8 [OF h, of bridging] h e o show ?thesis
    by (simp add: bridging_def accepted_def)
qed

text \<open>
  Claim C8 as stated fails on a payload that is not well-formed UTF-8: the single byte
  FF reaches the browser as the three bytes EF BF BD, the encoding of U+FFFD.
\<close>

theorem bridge_rewrites_invalid_utf8_counterexample:
  "map_option (calls \<circ> clientWs) (deliver TraccarWs (EvMessage [0xFF]) bridging)
     = Some [Send [0xEF, 0xBF, 0xBD]]
   \<and> map_option (calls \<circ> clientWs) (deliver TraccarWs (EvMessage [0xFF]) bridging)
     \<noteq> Some [Send [0xFF]]"
  by (simp add: deliver_def arrive_def arrived_def ws_send_def invoke_def bridging_def
        accepted_def toString_def utf8_encode_def utf8_encode_cp_def Let_def)

text \<open>Once the bridge is set up, every event finds the process alive.\<close>

lemma deliver_Some: "\<exists>b'. deliver e ev b = Some b'"
  by (cases e; cases ev) (simp_all add: deliver_def)

lemma deliver_keeps_calls:
  assumes "deliver e ev b = Some b'"
  shows "close_called (clientWs b) \<longrightarrow> close_called (clientWs b')"
    and "close_called (traccarWs b) \<longrightarrow> close_called (traccarWs b')"
    and "set (console b) \<subseteq> set (console b')"
  using assms
  by (cases e; cases ev;
      auto simp: deliver_def arrive_def arrived_def close_called_def ws_close_def ws_send_def
        shut_def invoke_def console_log_def on_pong_def split: if_splits)+

lemma deliver_couples:
  "deliver TraccarWs EvClose b = Some b' \<Longrightarrow> close_called (clientWs b')"
  "deliver ClientWs EvClose b = Some b' \<Longrightarrow> close_called (traccarWs b')"
  "deliver ClientWs (EvError message) b = Some b' \<Longrightarrow> close_called (traccarWs b')"
  "deliver TraccarWs (EvError message) b = Some b' \<Longrightarrow>
     (''Traccar WebSocket error: '' @ message) \<in> set (console b')"
  by (auto simp: deliver_def arrive_def arrived_def close_called_def ws_close_def shut_def
        invoke_def console_log_def)

lemma bridge_run_Some: "\<exists>b'. bridge_run history b = Some b'"
proof (induction history arbitrary: b)
  case Nil
  show ?case by simp
next
  case (Cons x history)
  obtain e ev where x: "x = (e, ev)" by (cases x)
  from deliver_Some [of e ev b] obtain b1 where "deliver e ev b = Some b1" by blast
  with Cons [of b1] x show ?case by simp
qed

lemma bridge_run_keeps_calls:
  assumes "bridge_run history b = Some b'"
  shows "(close_called (clientWs b) \<longrightarrow> close_called (clientWs b'))
       \<and> (close_called (traccarWs b) \<longrightarrow> close_called (traccarWs b'))
       \<and> set (console b) \<subseteq> set (console b')"
  using assms
proof (induction history arbitrary: b)
  case Nil
  then show ?case by simp
next
  case (Cons x history)
  obtain e ev where x: "x = (e, ev)" by (cases x)
  from deliver_Some [of e ev b] obtain b1 where step: "deliver e ev b = Some b1" by blast
  with Cons.prems x have "bridge_run history b1 = Some b'" by simp
  from Cons.IH [OF this] deliver_keeps_calls [OF step] show ?case by blast
qed

lemma bridge_run_event:
  assumes "bridge_run history b = Some b'" and "(e, ev) \<in> set history"
  shows "\<exists>b1 b2. deliver e ev b1 = Some b2
           \<and> (close_called (clientWs b2) \<longrightarrow> close_called (clientWs b'))
           \<and> (close_called (traccarWs b2) \<longrightarrow> close_called (traccarWs b'))
           \<and> set (console b2) \<subseteq> set (console b')"
  using assms
proof (induction history arbitrary: b)
  case Nil
  then show ?case by simp
next
  case (Cons x history)
  obtain e0 ev0 where x: "x = (e0, ev0)" by (cases x)
  from deliver_Some [of e0 ev0 b] obtain b1 where step: "deliver e0 ev0 b = Some b1" by blast
  with Cons.prems(1) x have rest: "bridge_run history b1 = Some b'" by simp
  show ?case
  proof (cases "(e, ev) = x")
    case True
    with x step bridge_run_keeps_calls [OF rest] show ?thesis by blast
  next
    case False
    with Cons.prems(2) have "(e, ev) \<in> set history" by simp
    from Cons.IH [OF rest this] show ?thesis .
  qed
qed

lemma close_follows_error_mem:
  "close_follows_error history \<Longrightarrow> (e, EvError message) \<in> set history \<Longrightarrow>
     (e, EvClose) \<in> set history"
  by (induction history) auto

text \<open>
  What holds of a bridge once it is set up.  Over every history that the library can
  produce the process stays alive; a close or an error of the browser socket has made the
  bridge call \<open>close()\<close> on the upstream socket; a close of the upstream socket has made
  it call \<open>close()\<close> on the browser socket; and an error of the upstream socket has been
  logged and, through the close that follows it, has made the bridge call \<open>close()\<close> on
  the browser socket.
\<close>

lemma bridged_lifetimes_coupled:
  assumes "close_follows_error history"
  shows "\<exists>b'. bridge_run history b = Some b'
    \<and> ((ClientWs, EvClose) \<in> set history \<longrightarrow> close_called (traccarWs b'))
    \<and> ((ClientWs, EvError message) \<in> set history \<longrightarrow> close_called (traccarWs b'))
    \<and> ((TraccarWs, EvClose) \<in> set history \<longrightarrow> close_called (clientWs b'))
    \<and> ((TraccarWs, EvError message) \<in> set history \<longrightarrow>
          close_called (clientWs b')
          \<and> (''Traccar WebSocket error: '' @ message) \<in> set (console b'))"
proof -
  from bridge_run_Some [of history b] obtain b' where run: "bridge_run history b = Some b'"
    by blast
  note at = bridge_run_event [OF run]
  have a: "(ClientWs, EvClose) \<in> set history \<longrightarrow> close_called (traccarWs b')"
    using at [of ClientWs EvClose] deliver_couples(2) by blast
  have b: "(ClientWs, EvError message) \<in> set history \<longrightarrow> close_called (traccarWs b')"
    using at [of ClientWs "EvError message"] deliver_couples(3) by blast
  have c: "(TraccarWs, EvClose) \<in> set history \<longrightarrow> close_called (clientWs b')"
    using at [of TraccarWs EvClose] deliver_couples(1) by blast
  have d: "(TraccarWs, EvError message) \<in> set history \<longrightarrow>
          close_called (clientWs b')
          \<and> (''Traccar WebSocket error: '' @ message) \<in> set (console b')"
    using at [of TraccarWs "EvError message"] deliver_couples(4) c
      close_follows_error_mem [OF assms, of TraccarWs message]
    by blast
  from run a b c d show ?thesis by blast
qed

text \<open>
  Claim C7 at a browser that connects while the server has no session cookie and closes
  while the handler waits for the login.  The close finds no listener.  When the login
  has succeeded the handler creates the upstream socket all the same; the upstream socket
  opens and stays open, \<open>close()\<close> is never called on it, and a message it delivers is
  dropped: the upstream side outlives the browser side.
\<close>

theorem browser_close_during_login:
  "wss_connection started = Accepting accepted
   \<and> connection_run
        [Emits ClientWs EvClose,
         LoginSettles (snd (authenticateTraccar login_accepted started)),
         Emits TraccarWs EvOpen,
         Emits TraccarWs (EvMessage [0x7B, 0x7D])]
        (wss_connection started)
      = Some (Bridged
          \<lparr>clientWs = \<lparr>readyState = CLOSED, calls = [], isAlive = True\<rparr>,
             traccarWs = \<lparr>readyState = OPEN, calls = []\<rparr>,
             console = [''New WebSocket client connected'',
                        ''Connected to Traccar WebSocket'']\<rparr>)"
  by (simp add: wss_connection_def resume_def accepting_deliver_def arrived_def accepted_def
        started_def falsy_def login_accepted_def authenticateTraccar_def emit_def ok_def
        Let_def split_first_def deliver_def arrive_def console_log_def)


end
